theory Spec2Isabelle
  imports Main "HOL-Library.Word"
begin

unbundle bit_operations_syntax

section \<open>Machine types\<close>

type_synonym u8 = "8 word"
type_synonym u16 = "16 word"
type_synonym u32 = "32 word"
type_synonym u64 = "64 word"

text \<open>
  \<open>size_t\<close> values (\<open>BytesTransferred\<close>, \<open>BytesRead\<close>, vector sizes) are natural
  numbers. Additions on them stay far below the width of \<open>size_t\<close> (they are bounded by
  the size of a buffer in memory); subtractions are written with the wrap-around of a
  64-bit \<open>size_t\<close>.
\<close>

definition size_t_sub :: "nat \<Rightarrow> nat \<Rightarrow> nat" where
  "size_t_sub a b = (if b \<le> a then a - b else a + 2 ^ 64 - b)"

section \<open>Byte order\<close>

text \<open>
  The two bytes of a 16-bit value and the four bytes of a 32-bit value, most significant
  first (network byte order), and the values they denote.
\<close>

definition be_bytes16 :: "u16 \<Rightarrow> u8 list" where
  "be_bytes16 w = [ucast (drop_bit 8 w), ucast w]"

definition be_val16 :: "u8 list \<Rightarrow> u16" where
  "be_val16 bs = push_bit 8 (ucast (bs ! 0)) OR ucast (bs ! 1)"

definition be_bytes32 :: "u32 \<Rightarrow> u8 list" where
  "be_bytes32 w = [ucast (drop_bit 24 w), ucast (drop_bit 16 w), ucast (drop_bit 8 w), ucast w]"

definition be_val32 :: "u8 list \<Rightarrow> u32" where
  "be_val32 bs =
     push_bit 24 (ucast (bs ! 0)) OR push_bit 16 (ucast (bs ! 1)) OR
     push_bit 8 (ucast (bs ! 2)) OR ucast (bs ! 3)"

text \<open>
  The host's byte order is a parameter \<open>le\<close> (little-endian when true): how a value lies
  in memory, and what memory bytes read as a value.
\<close>

definition host_bytes16 :: "bool \<Rightarrow> u16 \<Rightarrow> u8 list" where
  "host_bytes16 le w = (if le then rev (be_bytes16 w) else be_bytes16 w)"

definition host_val16 :: "bool \<Rightarrow> u8 list \<Rightarrow> u16" where
  "host_val16 le bs = be_val16 (if le then rev bs else bs)"

definition host_bytes32 :: "bool \<Rightarrow> u32 \<Rightarrow> u8 list" where
  "host_bytes32 le w = (if le then rev (be_bytes32 w) else be_bytes32 w)"

definition host_val32 :: "bool \<Rightarrow> u8 list \<Rightarrow> u32" where
  "host_val32 le bs = be_val32 (if le then rev bs else bs)"

text \<open>
  Modelled from the spec: \<open>Convert::NetworkToHost\<close>, \<open>Convert::HostToNetwork\<close> and
  \<open>ByteSwapBE\<close> are declared in headers that are not among the sources. The spec says
  that they convert between wire byte order (network byte order, big-endian) and host
  order: the bytes are swapped on a little-endian host and left alone on a big-endian one.
\<close>

definition swap16 :: "u16 \<Rightarrow> u16" where
  "swap16 w = be_val16 (rev (be_bytes16 w))"

definition swap32 :: "u32 \<Rightarrow> u32" where
  "swap32 w = be_val32 (rev (be_bytes32 w))"

definition NetworkToHost :: "bool \<Rightarrow> u16 \<Rightarrow> u16" where
  "NetworkToHost le w = (if le then swap16 w else w)"

definition HostToNetwork :: "bool \<Rightarrow> u16 \<Rightarrow> u16" where
  "HostToNetwork le w = (if le then swap16 w else w)"

definition ByteSwapBE :: "bool \<Rightarrow> u32 \<Rightarrow> u32" where
  "ByteSwapBE le w = (if le then swap32 w else w)"

section \<open>NetworkPacket\<close>

text \<open>
  \<open>NetworkCommand\<close> is an enumeration over \<open>uint32_t\<close>, declared in NetworkTypes.h, which
  is not among the sources. A header's \<open>Id\<close> is the 32-bit value (the wire can carry
  any). The enumerators that the sources name are the constructors below; their numeric
  values are a parameter \<open>cmd\<close> of every function that switches on a command.
\<close>

datatype NetworkCommand =
    Ping | Auth | Token | GameInfo | ObjectsList | Scripts | MapRequest | Heartbeat
  | GameAction | MapCmd

record PacketHeader =
  Size :: u16
  Id :: u32

record NetworkPacket =
  Header :: PacketHeader
  Data :: "u8 list"
  BytesTransferred :: nat
  BytesRead :: nat

definition sizeof_header :: nat where
  "sizeof_header = 6"

definition sizeof_Id :: nat where
  "sizeof_Id = 4"

text \<open>\<open>NetworkPacket::NetworkPacket(NetworkCommand id)\<close>\<close>

definition NetworkPacket_new :: "u32 \<Rightarrow> NetworkPacket" where
  "NetworkPacket_new id' =
     \<lparr>Header = \<lparr>Size = 0, Id = id'\<rparr>, Data = [], BytesTransferred = 0, BytesRead = 0\<rparr>"

definition GetCommand :: "NetworkPacket \<Rightarrow> u32" where
  "GetCommand p = Id (Header p)"

definition Clear :: "NetworkPacket \<Rightarrow> NetworkPacket" where
  "Clear p = p\<lparr>BytesTransferred := 0, BytesRead := 0, Data := []\<rparr>"

text \<open>\<open>NetworkPacket::CommandRequiresAuth\<close>: the switch, one case label after the other.\<close>

definition CommandRequiresAuth :: "(NetworkCommand \<Rightarrow> u32) \<Rightarrow> NetworkPacket \<Rightarrow> bool" where
  "CommandRequiresAuth cmd p =
     (let c = GetCommand p in
      if c = cmd Ping then False
      else if c = cmd Auth then False
      else if c = cmd Token then False
      else if c = cmd GameInfo then False
      else if c = cmd ObjectsList then False
      else if c = cmd Scripts then False
      else if c = cmd MapRequest then False
      else if c = cmd Heartbeat then False
      else True)"

definition Write :: "NetworkPacket \<Rightarrow> u8 list \<Rightarrow> NetworkPacket" where
  "Write p bytes = p\<lparr>Data := Data p @ bytes\<rparr>"

text \<open>
  \<open>NetworkPacket::ReadString\<close>. The vector's storage is \<open>data\<close>; a read of
  \<open>Data.data()[i]\<close> with \<open>i\<close> past the last element does not fail in C++, it yields
  whatever byte lies there: \<open>past i\<close>. Every index the function inspects is logged, in
  the order of the reads.
\<close>

definition byte_at :: "(nat \<Rightarrow> u8) \<Rightarrow> u8 list \<Rightarrow> nat \<Rightarrow> u8" where
  "byte_at past data i = (if i < length data then data ! i else past i)"

function ReadString_loop ::
  "(nat \<Rightarrow> u8) \<Rightarrow> u8 list \<Rightarrow> nat \<Rightarrow> nat \<Rightarrow> nat \<Rightarrow> nat list \<Rightarrow> nat \<times> nat \<times> nat list" where
  "ReadString_loop past data str bytesRead stringLen log =
     (if bytesRead < length data then
        (if byte_at past data (str + stringLen) \<noteq> 0
         then ReadString_loop past data str (bytesRead + 1) (stringLen + 1)
                (log @ [str + stringLen])
         else (bytesRead, stringLen, log @ [str + stringLen]))
      else (bytesRead, stringLen, log))"
  by pat_completeness auto
termination
  by (relation "measure (\<lambda>(past, data, str, bytesRead, stringLen, log). length data - bytesRead)")
    auto

declare ReadString_loop.simps [simp del]

text \<open>
  The result is the string at the returned pointer (the bytes before its terminator), or
  \<open>None\<close> for \<open>nullptr\<close>; then the packet with its cursor, and the log of the indices
  read.
\<close>

definition ReadString ::
  "(nat \<Rightarrow> u8) \<Rightarrow> NetworkPacket \<Rightarrow> u8 list option \<times> NetworkPacket \<times> nat list" where
  "ReadString past p =
     (if BytesRead p \<ge> length (Data p) then (None, p, [])
      else
        (let str = BytesRead p in
         case ReadString_loop past (Data p) str (BytesRead p) 0 [] of
           (bytesRead, stringLen, log) \<Rightarrow>
             (let p' = p\<lparr>BytesRead := bytesRead\<rparr>;
                  log' = log @ [str + stringLen]
              in if byte_at past (Data p) (str + stringLen) \<noteq> 0 then (None, p', log')
                 else (Some (take stringLen (drop str (Data p))),
                       p'\<lparr>BytesRead := bytesRead + 1\<rparr>, log'))))"

section \<open>The socket\<close>

text \<open>
  Modelled from the spec: the socket is an external collaborator (Socket.h is not among
  the sources). \<open>receiveData(buffer, maxLen)\<close> gives a status and the bytes read, at most
  \<open>maxLen\<close>; \<open>sendData(buffer, len)\<close> gives the number of bytes the transport accepted,
  at most \<open>len\<close>. The socket's state is a script of what the peer and the transport do:
  \<open>rx\<close> lists what successive receive calls find (bytes that have arrived, or a status
  without data), \<open>tx_accept\<close> how many bytes successive send calls can take, and \<open>wire\<close>
  collects the bytes the transport accepted, in order.
\<close>

datatype NetworkReadPacket = Success | MoreData | Disconnected | Error

datatype rx_event = Bytes "u8 list" | Fail NetworkReadPacket

record TcpSocket =
  rx :: "rx_event list"
  tx_accept :: "nat list"
  wire :: "u8 list"

definition ReceiveData :: "TcpSocket \<Rightarrow> nat \<Rightarrow> NetworkReadPacket \<times> u8 list \<times> TcpSocket" where
  "ReceiveData s maxLen =
     (case rx s of
        [] \<Rightarrow> (MoreData, [], s)
      | Fail st # evs \<Rightarrow> (st, [], s\<lparr>rx := evs\<rparr>)
      | Bytes bs # evs \<Rightarrow>
          (Success, take maxLen bs,
           s\<lparr>rx := (if length bs \<le> maxLen then evs else Bytes (drop maxLen bs) # evs)\<rparr>))"

definition SendData :: "TcpSocket \<Rightarrow> u8 list \<Rightarrow> nat \<times> TcpSocket" where
  "SendData s buf =
     (case tx_accept s of
        [] \<Rightarrow> (0, s)
      | k # ks \<Rightarrow>
          (let n = min k (length buf)
           in (n, s\<lparr>tx_accept := ks, wire := wire s @ take n buf\<rparr>)))"

section \<open>NetworkConnection\<close>

text \<open>
  Modelled from the spec: \<open>NetworkAuth\<close> and \<open>NetworkStats_t\<close> are declared in headers
  that are not among the sources. The spec names the authentication states Unverified and
  Ok and leaves the others open; the statistics are a counter per traffic group (total,
  base, commands, map data) and direction, here of 64 bits.
\<close>

datatype NetworkAuth = Unverified | Ok | OtherAuth nat

datatype NetworkStatisticsGroup = Total | Base | Commands | MapData

record NetworkStats_t =
  bytesReceived :: "NetworkStatisticsGroup \<Rightarrow> u64"
  bytesSent :: "NetworkStatisticsGroup \<Rightarrow> u64"

record NetworkConnection =
  Socket :: TcpSocket
  InboundPacket :: NetworkPacket
  AuthStatus :: NetworkAuth
  Stats :: NetworkStats_t
  ShouldDisconnect :: bool
  outboundPackets :: "NetworkPacket list"
  lastPacketTime :: u32
  lastDisconnectReason :: "string option"

definition NetworkBufferSize :: nat where
  "NetworkBufferSize = 1024 * 64"

text \<open>\<open>NetworkConnection::RecordPacketStats\<close>\<close>

definition RecordPacketStats ::
  "(NetworkCommand \<Rightarrow> u32) \<Rightarrow> NetworkConnection \<Rightarrow> NetworkPacket \<Rightarrow> bool \<Rightarrow> NetworkConnection" where
  "RecordPacketStats cmd c packet sending =
     (let packetSize = (of_nat (BytesTransferred packet) :: u32);
          trafficGroup =
            (if GetCommand packet = cmd GameAction then Commands
             else if GetCommand packet = cmd MapCmd then MapData
             else Base);
          st = Stats c
      in if sending then
           (let a = bytesSent st;
                a1 = a(trafficGroup := a trafficGroup + ucast packetSize);
                a2 = a1(Total := a1 Total + ucast packetSize)
            in c\<lparr>Stats := st\<lparr>bytesSent := a2\<rparr>\<rparr>)
         else
           (let a = bytesReceived st;
                a1 = a(trafficGroup := a trafficGroup + ucast packetSize);
                a2 = a1(Total := a1 Total + ucast packetSize)
            in c\<lparr>Stats := st\<lparr>bytesReceived := a2\<rparr>\<rparr>))"

text \<open>
  The header in memory: six bytes, \<open>Size\<close> then \<open>Id\<close>, each in host order (the spec's
  6-byte header; \<open>sizeof(header)\<close> is 6).
\<close>

definition header_bytes :: "bool \<Rightarrow> PacketHeader \<Rightarrow> u8 list" where
  "header_bytes le h = host_bytes16 le (Size h) @ host_bytes32 le (Id h)"

definition header_of_bytes :: "bool \<Rightarrow> u8 list \<Rightarrow> PacketHeader" where
  "header_of_bytes le bs =
     \<lparr>Size = host_val16 le (take 2 bs), Id = host_val32 le (take 4 (drop 2 bs))\<rparr>"

text \<open>
  \<open>Socket->ReceiveData(buffer, missingLength, &bytesRead)\<close> with
  \<open>buffer = reinterpret_cast<uint8_t*>(&InboundPacket.Header)\<close>: the bytes received are
  written from the first byte of the header on, whatever \<open>BytesTransferred\<close> is; the
  bytes of the header behind them stay.
\<close>

definition receive_into_header :: "bool \<Rightarrow> PacketHeader \<Rightarrow> u8 list \<Rightarrow> PacketHeader" where
  "receive_into_header le h bytes =
     header_of_bytes le (bytes @ drop (length bytes) (header_bytes le h))"

text \<open>\<open>NetworkConnection::ReadPacket\<close>, the block "Read packet body" to the end.\<close>

definition ReadPacket_body ::
  "(NetworkCommand \<Rightarrow> u32) \<Rightarrow> u32 \<Rightarrow> NetworkConnection \<Rightarrow> NetworkReadPacket \<times> NetworkConnection" where
  "ReadPacket_body cmd now c =
     (let p = InboundPacket c;
          missingLength =
            size_t_sub (unat (Size (Header p))) (size_t_sub (BytesTransferred p) sizeof_header)
      in
      case
        (if missingLength > 0 then
           (case ReceiveData (Socket c) (min missingLength NetworkBufferSize) of
              (status, buffer, s') \<Rightarrow>
                if status \<noteq> Success then Inl (status, c\<lparr>Socket := s'\<rparr>)
                else
                  Inr (c\<lparr>Socket := s',
                         InboundPacket :=
                           Write (p\<lparr>BytesTransferred := BytesTransferred p + length buffer\<rparr>)
                             buffer\<rparr>))
         else Inr c)
      of
        Inl r \<Rightarrow> r
      | Inr c' \<Rightarrow>
          if length (Data (InboundPacket c')) = unat (Size (Header (InboundPacket c')))
          then (Success, RecordPacketStats cmd (c'\<lparr>lastPacketTime := now\<rparr>) (InboundPacket c') False)
          else (MoreData, c'))"

text \<open>
  \<open>NetworkConnection::ReadPacket\<close>; \<open>now\<close> is what \<open>platform_get_ticks()\<close> returns.
\<close>

definition ReadPacket ::
  "bool \<Rightarrow> (NetworkCommand \<Rightarrow> u32) \<Rightarrow> u32 \<Rightarrow> NetworkConnection \<Rightarrow> NetworkReadPacket \<times> NetworkConnection" where
  "ReadPacket le cmd now c =
     (let p = InboundPacket c in
      if BytesTransferred p < sizeof_header then
        (let missingLength = sizeof_header - BytesTransferred p in
         case ReceiveData (Socket c) missingLength of
           (status, bytes, s') \<Rightarrow>
             if status \<noteq> Success then (status, c\<lparr>Socket := s'\<rparr>)
             else
               (let h1 = receive_into_header le (Header p) bytes;
                    p1 = p\<lparr>Header := h1, BytesTransferred := BytesTransferred p + length bytes\<rparr>
                in if BytesTransferred p1 < sizeof_header
                   then (MoreData, c\<lparr>Socket := s', InboundPacket := p1\<rparr>)
                   else
                     (let size1 = NetworkToHost le (Size h1);
                          id1 = ByteSwapBE le (Id h1);
                          size2 = size1 - min size1 (of_nat sizeof_Id)
                      in ReadPacket_body cmd now
                           (c\<lparr>Socket := s',
                              InboundPacket := p1\<lparr>Header := \<lparr>Size = size2, Id = id1\<rparr>\<rparr>\<rparr>))))
      else ReadPacket_body cmd now c)"

text \<open>
  \<open>NetworkConnection::SendPacket\<close>: first the buffer it builds, then the send. With
  \<open>BytesTransferred\<close> beyond the buffer, \<open>buffer.data() + packet.BytesTransferred\<close> points
  past the buffer and \<open>buffer.size() - packet.BytesTransferred\<close> wraps around: undefined
  behaviour, \<open>None\<close>.
\<close>

definition SendPacket_buffer :: "bool \<Rightarrow> NetworkPacket \<Rightarrow> u8 list" where
  "SendPacket_buffer le packet =
     (let header = Header packet;
          size1 = Size header + of_nat sizeof_Id;
          size2 = HostToNetwork le size1;
          id1 = ByteSwapBE le (Id header)
      in header_bytes le \<lparr>Size = size2, Id = id1\<rparr> @ Data packet)"

definition SendPacket ::
  "bool \<Rightarrow> (NetworkCommand \<Rightarrow> u32) \<Rightarrow> NetworkConnection \<Rightarrow> NetworkPacket
     \<Rightarrow> (bool \<times> NetworkPacket \<times> NetworkConnection) option" where
  "SendPacket le cmd c packet =
     (let buffer = SendPacket_buffer le packet in
      if BytesTransferred packet > length buffer then None
      else
        (case SendData (Socket c) (drop (BytesTransferred packet) buffer) of
           (sent, s') \<Rightarrow>
             (let packet' =
                    (if sent > 0
                     then packet\<lparr>BytesTransferred := BytesTransferred packet + sent\<rparr>
                     else packet);
                  sendComplete = (BytesTransferred packet' = length buffer);
                  c' = c\<lparr>Socket := s'\<rparr>
              in Some (sendComplete, packet',
                       if sendComplete then RecordPacketStats cmd c' packet' True else c'))))"

text \<open>\<open>NetworkConnection::QueuePacket\<close>\<close>

definition QueuePacket ::
  "(NetworkCommand \<Rightarrow> u32) \<Rightarrow> NetworkConnection \<Rightarrow> NetworkPacket \<Rightarrow> bool \<Rightarrow> NetworkConnection" where
  "QueuePacket cmd c packet front =
     (if AuthStatus c = Ok \<or> \<not> CommandRequiresAuth cmd packet then
        (let packet1 = packet\<lparr>Header := (Header packet)\<lparr>Size := of_nat (length (Data packet))\<rparr>\<rparr>;
             q = outboundPackets c
         in if front then
              (if q \<noteq> [] \<and> BytesTransferred (hd q) > 0
               then c\<lparr>outboundPackets := hd q # packet1 # tl q\<rparr>
               else c\<lparr>outboundPackets := packet1 # q\<rparr>)
            else c\<lparr>outboundPackets := q @ [packet1]\<rparr>)
      else c)"

text \<open>
  \<open>NetworkConnection::SendQueuedPackets\<close>: \<open>SendPacket\<close> works on the packet at the head
  of the queue in place.
\<close>

function SendQueuedPackets ::
  "bool \<Rightarrow> (NetworkCommand \<Rightarrow> u32) \<Rightarrow> NetworkConnection \<Rightarrow> NetworkConnection option" where
  "SendQueuedPackets le cmd c =
     (case outboundPackets c of
        [] \<Rightarrow> Some c
      | first # rest \<Rightarrow>
          (case SendPacket le cmd c first of
             None \<Rightarrow> None
           | Some (sendComplete, first', c') \<Rightarrow>
               if sendComplete then SendQueuedPackets le cmd (c'\<lparr>outboundPackets := rest\<rparr>)
               else Some (c'\<lparr>outboundPackets := first' # rest\<rparr>)))"
  by pat_completeness auto
termination
  by (relation "measure (\<lambda>(le, cmd, c). length (outboundPackets c))") auto

declare SendQueuedPackets.simps [simp del]

section \<open>Definitions for the statements\<close>

text \<open>What \<open>QueuePacket\<close> makes of an accepted packet: the size is stamped.\<close>

definition stamp_size :: "NetworkPacket \<Rightarrow> NetworkPacket" where
  "stamp_size p = p\<lparr>Header := (Header p)\<lparr>Size := of_nat (length (Data p))\<rparr>\<rparr>"

text \<open>The traffic group of a packet, and a counter array after \<open>n\<close> bytes of a group.\<close>

definition traffic_group :: "(NetworkCommand \<Rightarrow> u32) \<Rightarrow> NetworkPacket \<Rightarrow> NetworkStatisticsGroup" where
  "traffic_group cmd p =
     (if GetCommand p = cmd GameAction then Commands
      else if GetCommand p = cmd MapCmd then MapData else Base)"

definition count_bytes ::
  "(NetworkStatisticsGroup \<Rightarrow> u64) \<Rightarrow> NetworkStatisticsGroup \<Rightarrow> nat \<Rightarrow> NetworkStatisticsGroup \<Rightarrow> u64" where
  "count_bytes a g n = a(g := a g + of_nat n, Total := a Total + of_nat n)"

text \<open>The packet as \<open>QueuePacket\<close> appends it to the queue.\<close>

definition queued_packet ::
  "(NetworkCommand \<Rightarrow> u32) \<Rightarrow> NetworkConnection \<Rightarrow> NetworkPacket \<Rightarrow> NetworkPacket" where
  "queued_packet cmd c p = last (outboundPackets (QueuePacket cmd c p False))"

text \<open>
  The caller of \<open>ReadPacket\<close>: it calls again while the result is "more data", here at
  most \<open>n\<close> times.
\<close>

fun ReadPacket_poll ::
  "nat \<Rightarrow> bool \<Rightarrow> (NetworkCommand \<Rightarrow> u32) \<Rightarrow> u32 \<Rightarrow> NetworkConnection
     \<Rightarrow> NetworkReadPacket \<times> NetworkConnection" where
  "ReadPacket_poll 0 le cmd now c = (MoreData, c)"
| "ReadPacket_poll (Suc n) le cmd now c =
     (case ReadPacket le cmd now c of
        (MoreData, c') \<Rightarrow> ReadPacket_poll n le cmd now c'
      | r \<Rightarrow> r)"

text \<open>
  The calls of a session layer that queues packets at the tail and drains the queue, run
  in order; \<open>None\<close> when a send has undefined behaviour.
\<close>

datatype connection_call = Queue NetworkPacket | Drain

fun run_calls ::
  "bool \<Rightarrow> (NetworkCommand \<Rightarrow> u32) \<Rightarrow> connection_call list \<Rightarrow> NetworkConnection
     \<Rightarrow> NetworkConnection option" where
  "run_calls le cmd [] c = Some c"
| "run_calls le cmd (Queue p # calls) c = run_calls le cmd calls (QueuePacket cmd c p False)"
| "run_calls le cmd (Drain # calls) c =
     (case SendQueuedPackets le cmd c of
        None \<Rightarrow> None
      | Some c' \<Rightarrow> run_calls le cmd calls c')"

text \<open>
  The packets of these calls that pass the authentication check, as they are queued, in
  the order of the calls; and the bytes of a queue that are still to be sent.
\<close>

fun accepted ::
  "(NetworkCommand \<Rightarrow> u32) \<Rightarrow> NetworkAuth \<Rightarrow> connection_call list \<Rightarrow> NetworkPacket list" where
  "accepted cmd a [] = []"
| "accepted cmd a (Queue p # calls) =
     (if a = Ok \<or> \<not> CommandRequiresAuth cmd p then [stamp_size p] else []) @
     accepted cmd a calls"
| "accepted cmd a (Drain # calls) = accepted cmd a calls"

definition pending :: "bool \<Rightarrow> NetworkPacket list \<Rightarrow> u8 list" where
  "pending le q = concat (map (\<lambda>p. drop (BytesTransferred p) (SendPacket_buffer le p)) q)"

text \<open>
  A queue in order: no packet has more bytes transferred than it has, and only the head
  has any.
\<close>

definition queue_in_order :: "bool \<Rightarrow> NetworkPacket list \<Rightarrow> bool" where
  "queue_in_order le q =
     ((\<forall>p \<in> set q. BytesTransferred p \<le> length (SendPacket_buffer le p)) \<and>
      (\<forall>p \<in> set (tl q). BytesTransferred p = 0))"

section \<open>Example inputs\<close>

text \<open>A numbering of the enumerators, a socket with nothing to do and a new connection.\<close>

definition cmd_numbering :: "NetworkCommand \<Rightarrow> u32" where
  "cmd_numbering c =
     (case c of Auth \<Rightarrow> 0 | MapCmd \<Rightarrow> 1 | Ping \<Rightarrow> 6 | GameInfo \<Rightarrow> 9 | Token \<Rightarrow> 13
      | ObjectsList \<Rightarrow> 14 | MapRequest \<Rightarrow> 15 | GameAction \<Rightarrow> 16 | Scripts \<Rightarrow> 18
      | Heartbeat \<Rightarrow> 19)"

definition idle_socket :: TcpSocket where
  "idle_socket = \<lparr>rx = [], tx_accept = [], wire = []\<rparr>"

definition fresh_connection :: NetworkConnection where
  "fresh_connection =
     \<lparr>Socket = idle_socket, InboundPacket = NetworkPacket_new 0xFFFFFFFF,
      AuthStatus = Unverified,
      Stats = \<lparr>bytesReceived = (\<lambda>_. 0), bytesSent = (\<lambda>_. 0)\<rparr>,
      ShouldDisconnect = False, outboundPackets = [], lastPacketTime = 0,
      lastDisconnectReason = None\<rparr>"

text \<open>Three packets for a queue.\<close>

definition packet_A :: NetworkPacket where
  "packet_A = \<lparr>Header = \<lparr>Size = 2, Id = 2\<rparr>, Data = [1, 2], BytesTransferred = 0, BytesRead = 0\<rparr>"

definition packet_B :: NetworkPacket where
  "packet_B = \<lparr>Header = \<lparr>Size = 1, Id = 3\<rparr>, Data = [7], BytesTransferred = 0, BytesRead = 0\<rparr>"

definition packet_C :: NetworkPacket where
  "packet_C = \<lparr>Header = \<lparr>Size = 0, Id = 6\<rparr>, Data = [9, 9, 9], BytesTransferred = 0, BytesRead = 0\<rparr>"

text \<open>
  A GameAction packet of 44 bytes of body, 50 bytes on the wire; and the connection after
  the six bytes of a Map packet with an empty body have been read.
\<close>

definition game_action_50 :: NetworkPacket where
  "game_action_50 =
     \<lparr>Header = \<lparr>Size = 44, Id = 16\<rparr>, Data = replicate 44 0, BytesTransferred = 0, BytesRead = 0\<rparr>"

definition received_map_connection :: NetworkConnection where
  "received_map_connection =
     snd (ReadPacket True cmd_numbering 7
            (fresh_connection\<lparr>Socket := idle_socket\<lparr>rx := [Bytes [0, 4, 0, 0, 0, 1]]\<rparr>\<rparr>))"

text \<open>A Ping packet with a body of 65532 bytes, and a connection that receives it.\<close>

definition ping_65532 :: NetworkPacket where
  "ping_65532 = (NetworkPacket_new 6)\<lparr>Data := replicate 65532 0\<rparr>"

definition receiving_65532 :: NetworkConnection where
  "receiving_65532 =
     fresh_connection\<lparr>Socket := idle_socket
       \<lparr>rx := [Bytes (SendPacket_buffer True
                 (queued_packet cmd_numbering fresh_connection ping_65532))]\<rparr>\<rparr>"

text \<open>A connection that will receive the given chunks, one per receive.\<close>

definition receiving :: "u8 list list \<Rightarrow> NetworkConnection" where
  "receiving chunks = fresh_connection\<lparr>Socket := idle_socket\<lparr>rx := map Bytes chunks\<rparr>\<rparr>"

text \<open>
  A packet of command 2 with one byte of body, and a sender that queues it and sends it
  to a transport that takes all of it.
\<close>

definition chat_packet :: NetworkPacket where
  "chat_packet = (NetworkPacket_new 2)\<lparr>Data := [7]\<rparr>"

definition sender_after :: "NetworkConnection option" where
  "sender_after =
     SendQueuedPackets True cmd_numbering
       (QueuePacket cmd_numbering
          (fresh_connection\<lparr>Socket := idle_socket\<lparr>tx_accept := [100]\<rparr>, AuthStatus := Ok\<rparr>)
          chat_packet False)"

text \<open>A packet whose body is "abc" with no terminator.\<close>

definition abc_packet :: NetworkPacket where
  "abc_packet = (NetworkPacket_new 2)\<lparr>Data := [97, 98, 99]\<rparr>"

text \<open>
  A session that queues three packets and drains three times, on an authenticated
  connection whose transport takes one byte per send.
\<close>

definition three_packets :: "connection_call list" where
  "three_packets = [Queue packet_A, Queue packet_B, Queue packet_C, Drain, Drain, Drain]"

definition one_byte_transport :: NetworkConnection where
  "one_byte_transport =
     fresh_connection\<lparr>Socket := idle_socket\<lparr>tx_accept := [1, 1, 1]\<rparr>, AuthStatus := Ok\<rparr>"

section \<open>Properties\<close>

subsection \<open>The pre-authentication allow-list\<close>

text \<open>
  Claim C7. \<open>CommandRequiresAuth\<close> returns false exactly for the commands Ping, Auth,
  Token, GameInfo, ObjectsList, Scripts, MapRequest and Heartbeat, and true for every
  other command identifier, whatever the numbering of the enumerators.
\<close>

theorem CommandRequiresAuth_allow_list:
  "(CommandRequiresAuth cmd p = False) =
     (GetCommand p \<in>
        cmd ` {Ping, Auth, Token, GameInfo, ObjectsList, Scripts, MapRequest, Heartbeat})"
  by (auto simp: CommandRequiresAuth_def Let_def)

theorem CommandRequiresAuth_allow_list_witness:
  "CommandRequiresAuth cmd_numbering (NetworkPacket_new 6) = False \<and>
   CommandRequiresAuth cmd_numbering (NetworkPacket_new 2) = True"
  using CommandRequiresAuth_allow_list [of cmd_numbering "NetworkPacket_new 6"]
    CommandRequiresAuth_allow_list [of cmd_numbering "NetworkPacket_new 2"]
  by (simp add: cmd_numbering_def GetCommand_def NetworkPacket_new_def)

subsection \<open>Queueing\<close>

text \<open>
  Claim C5. For an authorized packet \<open>C\<close>, \<open>QueuePacket\<close> with \<open>front\<close> set puts \<open>C\<close>
  (its size stamped) at the head when the queue is empty or its head has
  \<open>BytesTransferred = 0\<close>, and at the second position, behind the head \<open>A\<close>, when \<open>A\<close> has
  \<open>BytesTransferred > 0\<close>; nothing else of the connection changes.
\<close>

theorem QueuePacket_front:
  assumes "AuthStatus c = Ok \<or> \<not> CommandRequiresAuth cmd C"
  shows "(outboundPackets c = [] \<longrightarrow>
            QueuePacket cmd c C True = c\<lparr>outboundPackets := [stamp_size C]\<rparr>) \<and>
         (\<forall>A rest. outboundPackets c = A # rest \<and> BytesTransferred A = 0 \<longrightarrow>
            QueuePacket cmd c C True = c\<lparr>outboundPackets := stamp_size C # A # rest\<rparr>) \<and>
         (\<forall>A rest. outboundPackets c = A # rest \<and> BytesTransferred A > 0 \<longrightarrow>
            QueuePacket cmd c C True = c\<lparr>outboundPackets := A # stamp_size C # rest\<rparr>)"
  using assms by (auto simp: QueuePacket_def Let_def stamp_size_def)

theorem QueuePacket_front_witness:
  "QueuePacket cmd_numbering fresh_connection packet_C True =
     fresh_connection\<lparr>outboundPackets := [stamp_size packet_C]\<rparr> \<and>
   QueuePacket cmd_numbering (fresh_connection\<lparr>outboundPackets := [packet_A, packet_B]\<rparr>) packet_C True =
     fresh_connection\<lparr>outboundPackets := [stamp_size packet_C, packet_A, packet_B]\<rparr> \<and>
   QueuePacket cmd_numbering
     (fresh_connection\<lparr>outboundPackets := [packet_A\<lparr>BytesTransferred := 3\<rparr>, packet_B]\<rparr>) packet_C True =
     fresh_connection\<lparr>outboundPackets := [packet_A\<lparr>BytesTransferred := 3\<rparr>, stamp_size packet_C, packet_B]\<rparr>"
proof -
  have auth: "\<not> CommandRequiresAuth cmd_numbering packet_C"
    by (simp add: CommandRequiresAuth_def GetCommand_def packet_C_def cmd_numbering_def)
  show ?thesis
    using QueuePacket_front [of fresh_connection cmd_numbering packet_C]
      QueuePacket_front [of "fresh_connection\<lparr>outboundPackets := [packet_A, packet_B]\<rparr>"
        cmd_numbering packet_C]
      QueuePacket_front [of "fresh_connection\<lparr>outboundPackets := [packet_A\<lparr>BytesTransferred := 3\<rparr>, packet_B]\<rparr>"
        cmd_numbering packet_C]
      auth
    by (simp add: fresh_connection_def packet_A_def)
qed

text \<open>
  Claim C6. A packet whose command requires authentication, queued while the
  authentication status is not Ok, leaves the whole connection as it was.
\<close>

theorem QueuePacket_auth_gating:
  assumes "CommandRequiresAuth cmd p" and "AuthStatus c \<noteq> Ok"
  shows "QueuePacket cmd c p front = c"
  using assms by (simp add: QueuePacket_def)

theorem QueuePacket_auth_gating_witness:
  "CommandRequiresAuth cmd_numbering packet_A \<and> AuthStatus fresh_connection \<noteq> Ok \<and>
   QueuePacket cmd_numbering fresh_connection packet_A False = fresh_connection \<and>
   QueuePacket cmd_numbering fresh_connection packet_A True = fresh_connection"
proof -
  have req: "CommandRequiresAuth cmd_numbering packet_A"
    by (simp add: CommandRequiresAuth_def GetCommand_def packet_A_def cmd_numbering_def)
  have auth: "AuthStatus fresh_connection \<noteq> Ok"
    by (simp add: fresh_connection_def)
  show ?thesis
    using req auth QueuePacket_auth_gating [OF req auth, of False]
      QueuePacket_auth_gating [OF req auth, of True]
    by simp
qed

subsection \<open>Traffic statistics\<close>

lemmas byte_order_defs =
  host_bytes16_def host_bytes32_def host_val16_def host_val32_def be_bytes16_def be_bytes32_def
  be_val16_def be_val32_def swap16_def swap32_def NetworkToHost_def HostToNetwork_def
  ByteSwapBE_def header_bytes_def header_of_bytes_def

lemmas read_defs =
  ReadPacket_def ReadPacket_body_def ReceiveData_def receive_into_header_def size_t_sub_def
  sizeof_header_def sizeof_Id_def NetworkBufferSize_def Write_def Let_def

lemmas example_defs =
  fresh_connection_def idle_socket_def NetworkPacket_new_def cmd_numbering_def

lemma ucast_packetSize:
  "n < 2 ^ 32 \<Longrightarrow> (ucast (of_nat n :: u32) :: u64) = of_nat n"
  by (simp add: ucast_eq unsigned_of_nat take_bit_nat_eq_self)

lemma traffic_group_not_Total: "traffic_group cmd p \<noteq> Total"
  by (simp add: traffic_group_def)

lemma RecordPacketStats_sending:
  assumes "BytesTransferred p < 2 ^ 32"
  shows "RecordPacketStats cmd c p True =
     c\<lparr>Stats := (Stats c)\<lparr>bytesSent :=
        count_bytes (bytesSent (Stats c)) (traffic_group cmd p) (BytesTransferred p)\<rparr>\<rparr>"
  using assms traffic_group_not_Total [of cmd p]
  by (simp add: RecordPacketStats_def Let_def count_bytes_def ucast_packetSize traffic_group_def)

lemma RecordPacketStats_receiving:
  assumes "BytesTransferred p < 2 ^ 32"
  shows "RecordPacketStats cmd c p False =
     c\<lparr>Stats := (Stats c)\<lparr>bytesReceived :=
        count_bytes (bytesReceived (Stats c)) (traffic_group cmd p) (BytesTransferred p)\<rparr>\<rparr>"
  using assms traffic_group_not_Total [of cmd p]
  by (simp add: RecordPacketStats_def Let_def count_bytes_def ucast_packetSize traffic_group_def)

lemma RecordPacketStats_Stats_cong:
  "Stats c1 = Stats c2 \<Longrightarrow>
   Stats (RecordPacketStats cmd c1 p s) = Stats (RecordPacketStats cmd c2 p s)"
  by (simp add: RecordPacketStats_def Let_def)

lemma RecordPacketStats_Inbound:
  "InboundPacket (RecordPacketStats cmd c p s) = InboundPacket c"
  by (simp add: RecordPacketStats_def Let_def)

lemma SendPacket_complete:
  assumes "SendPacket le cmd c p = Some (True, p', c')"
  shows "Stats c' = Stats (RecordPacketStats cmd c p' True) \<and> GetCommand p' = GetCommand p"
proof -
  from assms obtain s' where "c' = RecordPacketStats cmd (c\<lparr>Socket := s'\<rparr>) p' True"
    and "GetCommand p' = GetCommand p"
    by (auto simp: SendPacket_def Let_def GetCommand_def split: prod.splits if_splits)
  then show ?thesis
    using RecordPacketStats_Stats_cong [of "c\<lparr>Socket := s'\<rparr>" c cmd p' True] by simp
qed

lemma ReadPacket_body_complete:
  assumes "ReadPacket_body cmd now c = (Success, c')"
  shows "Stats c' = Stats (RecordPacketStats cmd c (InboundPacket c') False)"
proof -
  have "\<exists>c1. Stats c1 = Stats c \<and> c' = RecordPacketStats cmd c1 (InboundPacket c1) False"
  proof (cases "0 < size_t_sub (unat (Size (Header (InboundPacket c))))
                    (size_t_sub (BytesTransferred (InboundPacket c)) sizeof_header)")
    case False
    with assms have "c' = RecordPacketStats cmd (c\<lparr>lastPacketTime := now\<rparr>)
                            (InboundPacket (c\<lparr>lastPacketTime := now\<rparr>)) False"
      by (simp add: ReadPacket_body_def Let_def split: if_splits)
    then show ?thesis by (intro exI [of _ "c\<lparr>lastPacketTime := now\<rparr>"]) simp
  next
    case True
    with assms obtain buffer s' where
      "c' = RecordPacketStats cmd
              (c\<lparr>Socket := s', InboundPacket := Write (InboundPacket c
                   \<lparr>BytesTransferred := BytesTransferred (InboundPacket c) + length buffer\<rparr>) buffer,
                 lastPacketTime := now\<rparr>)
              (Write (InboundPacket c
                   \<lparr>BytesTransferred := BytesTransferred (InboundPacket c) + length buffer\<rparr>) buffer)
              False"
      by (auto simp: ReadPacket_body_def Let_def split: if_splits prod.splits)
    then show ?thesis
      by (intro exI [of _ "c\<lparr>Socket := s', InboundPacket := Write (InboundPacket c
                   \<lparr>BytesTransferred := BytesTransferred (InboundPacket c) + length buffer\<rparr>) buffer,
                 lastPacketTime := now\<rparr>"]) simp
  qed
  then obtain c1 where c1: "Stats c1 = Stats c"
    "c' = RecordPacketStats cmd c1 (InboundPacket c1) False" by blast
  then have "InboundPacket c' = InboundPacket c1" by (simp add: RecordPacketStats_Inbound)
  with c1 show ?thesis
    using RecordPacketStats_Stats_cong [of c1 c cmd "InboundPacket c1" False] by simp
qed

lemma ReadPacket_complete:
  assumes "ReadPacket le cmd now c = (Success, c')"
  shows "Stats c' = Stats (RecordPacketStats cmd c (InboundPacket c') False)"
proof -
  from assms obtain c0 where c0: "ReadPacket_body cmd now c0 = (Success, c')" "Stats c0 = Stats c"
    by (auto simp: ReadPacket_def Let_def split: if_splits prod.splits)
  from ReadPacket_body_complete [OF c0(1)] c0(2) show ?thesis
    using RecordPacketStats_Stats_cong [of c0 c cmd "InboundPacket c'" False] by simp
qed

text \<open>
  Claim C8. When a packet of command GameAction with 50 bytes transferred is fully sent,
  the sent counters of the commands group and of the total each grow by 50 and no other
  counter changes. Every fully sent and every fully received packet (with a byte count
  that fits the 32-bit \<open>packetSize\<close>) adds its \<open>BytesTransferred\<close> to the counter of one
  group other than the total (commands for GameAction, map data for Map, base otherwise)
  and to the total, in its direction only.
\<close>

theorem traffic_statistics_frame:
  "(SendPacket le cmd c p = Some (True, p', c') \<and> GetCommand p = cmd GameAction \<and>
      BytesTransferred p' = 50 \<longrightarrow>
      Stats c' = (Stats c)\<lparr>bytesSent := (bytesSent (Stats c))
        (Commands := bytesSent (Stats c) Commands + 50, Total := bytesSent (Stats c) Total + 50)\<rparr>) \<and>
   (SendPacket le cmd c p = Some (True, p', c') \<and> BytesTransferred p' < 2 ^ 32 \<longrightarrow>
      traffic_group cmd p' \<noteq> Total \<and>
      Stats c' = (Stats c)\<lparr>bytesSent :=
        count_bytes (bytesSent (Stats c)) (traffic_group cmd p') (BytesTransferred p')\<rparr>) \<and>
   (ReadPacket le cmd now c = (Success, c'') \<and> BytesTransferred (InboundPacket c'') < 2 ^ 32 \<longrightarrow>
      traffic_group cmd (InboundPacket c'') \<noteq> Total \<and>
      Stats c'' = (Stats c)\<lparr>bytesReceived :=
        count_bytes (bytesReceived (Stats c)) (traffic_group cmd (InboundPacket c''))
          (BytesTransferred (InboundPacket c''))\<rparr>)"
proof (intro conjI impI)
  assume a: "SendPacket le cmd c p = Some (True, p', c') \<and> GetCommand p = cmd GameAction \<and>
      BytesTransferred p' = 50"
  then have "Stats c' = Stats (RecordPacketStats cmd c p' True)" "GetCommand p' = cmd GameAction"
    using SendPacket_complete [of le cmd c p p' c'] by simp_all
  with a show "Stats c' = (Stats c)\<lparr>bytesSent := (bytesSent (Stats c))
        (Commands := bytesSent (Stats c) Commands + 50, Total := bytesSent (Stats c) Total + 50)\<rparr>"
    by (simp add: RecordPacketStats_sending traffic_group_def count_bytes_def)
next
  assume a: "SendPacket le cmd c p = Some (True, p', c') \<and> BytesTransferred p' < 2 ^ 32"
  then have "Stats c' = Stats (RecordPacketStats cmd c p' True)"
    using SendPacket_complete [of le cmd c p p' c'] by simp
  with a show "Stats c' = (Stats c)\<lparr>bytesSent :=
        count_bytes (bytesSent (Stats c)) (traffic_group cmd p') (BytesTransferred p')\<rparr>"
    by (simp add: RecordPacketStats_sending)
next
  assume a: "ReadPacket le cmd now c = (Success, c'') \<and> BytesTransferred (InboundPacket c'') < 2 ^ 32"
  then have "Stats c'' = Stats (RecordPacketStats cmd c (InboundPacket c'') False)"
    using ReadPacket_complete [of le cmd now c c''] by simp
  with a show "Stats c'' = (Stats c)\<lparr>bytesReceived :=
        count_bytes (bytesReceived (Stats c)) (traffic_group cmd (InboundPacket c''))
          (BytesTransferred (InboundPacket c''))\<rparr>"
    by (simp add: RecordPacketStats_receiving)
qed (simp_all add: traffic_group_not_Total)

theorem traffic_statistics_frame_witness:
  "SendPacket True cmd_numbering (fresh_connection\<lparr>Socket := idle_socket\<lparr>tx_accept := [50]\<rparr>\<rparr>)
     game_action_50 =
     Some (True, game_action_50\<lparr>BytesTransferred := 50\<rparr>,
       RecordPacketStats cmd_numbering
         (fresh_connection\<lparr>Socket :=
            idle_socket\<lparr>tx_accept := [], wire := SendPacket_buffer True game_action_50\<rparr>\<rparr>)
         (game_action_50\<lparr>BytesTransferred := 50\<rparr>) True) \<and>
   GetCommand game_action_50 = cmd_numbering GameAction \<and>
   Stats (RecordPacketStats cmd_numbering
         (fresh_connection\<lparr>Socket :=
            idle_socket\<lparr>tx_accept := [], wire := SendPacket_buffer True game_action_50\<rparr>\<rparr>)
         (game_action_50\<lparr>BytesTransferred := 50\<rparr>) True) =
     (Stats fresh_connection)\<lparr>bytesSent := (bytesSent (Stats fresh_connection))
        (Commands := bytesSent (Stats fresh_connection) Commands + 50,
         Total := bytesSent (Stats fresh_connection) Total + 50)\<rparr> \<and>
   ReadPacket True cmd_numbering 7
     (fresh_connection\<lparr>Socket := idle_socket\<lparr>rx := [Bytes [0, 4, 0, 0, 0, 1]]\<rparr>\<rparr>) =
     (Success, received_map_connection) \<and>
   BytesTransferred (InboundPacket received_map_connection) = 6 \<and>
   Stats received_map_connection =
     (Stats fresh_connection)\<lparr>bytesReceived :=
        count_bytes (bytesReceived (Stats fresh_connection)) MapData 6\<rparr>"
proof -
  let ?c = "fresh_connection\<lparr>Socket := idle_socket\<lparr>tx_accept := [50]\<rparr>\<rparr>"
  let ?c' = "RecordPacketStats cmd_numbering
         (fresh_connection\<lparr>Socket :=
            idle_socket\<lparr>tx_accept := [], wire := SendPacket_buffer True game_action_50\<rparr>\<rparr>)
         (game_action_50\<lparr>BytesTransferred := 50\<rparr>) True"
  let ?r = "fresh_connection\<lparr>Socket := idle_socket\<lparr>rx := [Bytes [0, 4, 0, 0, 0, 1]]\<rparr>\<rparr>"
  have len: "length (SendPacket_buffer True game_action_50) = 50"
    by (simp add: SendPacket_buffer_def game_action_50_def byte_order_defs Let_def)
  have sent: "SendPacket True cmd_numbering ?c game_action_50 =
     Some (True, game_action_50\<lparr>BytesTransferred := 50\<rparr>, ?c')"
    by (simp add: SendPacket_def Let_def SendData_def len idle_socket_def fresh_connection_def)
      (simp add: game_action_50_def)
  have cmd: "GetCommand game_action_50 = cmd_numbering GameAction"
    by (simp add: GetCommand_def game_action_50_def cmd_numbering_def)
  have st: "fst (ReadPacket True cmd_numbering 7 ?r) = Success"
    by (simp add: read_defs byte_order_defs example_defs)
  then have recv: "ReadPacket True cmd_numbering 7 ?r = (Success, received_map_connection)"
    by (simp add: received_map_connection_def prod_eq_iff)
  have bt: "BytesTransferred (InboundPacket received_map_connection) = 6"
    unfolding received_map_connection_def
    by (simp add: read_defs byte_order_defs example_defs RecordPacketStats_def)
  have grp: "traffic_group cmd_numbering (InboundPacket received_map_connection) = MapData"
    unfolding received_map_connection_def
    by (simp add: read_defs byte_order_defs example_defs RecordPacketStats_def
        traffic_group_def GetCommand_def)
  show ?thesis
    using traffic_statistics_frame [of True cmd_numbering ?c game_action_50
        "game_action_50\<lparr>BytesTransferred := 50\<rparr>" ?c' 7 received_map_connection]
      traffic_statistics_frame [of True cmd_numbering ?r game_action_50
        "game_action_50\<lparr>BytesTransferred := 50\<rparr>" ?c' 7 received_map_connection]
      sent cmd recv bt grp
    by simp
qed

subsection \<open>Byte order and the header\<close>

lemma be_val16_bytes: "be_val16 (be_bytes16 w) = w"
  unfolding be_val16_def be_bytes16_def
  by (rule bit_word_eqI) (auto simp: bit_simps)

lemma be_bytes16_push:
  fixes a b :: u8
  shows "ucast (drop_bit 8 (push_bit 8 (ucast a) OR ucast b :: u16)) = a"
    and "ucast (push_bit 8 (ucast a) OR ucast b :: u16) = b"
  by (rule bit_word_eqI; auto simp: bit_simps dest: bit_imp_le_length)+

lemma be_bytes16_val: "length bs = 2 \<Longrightarrow> be_bytes16 (be_val16 bs) = bs"
  unfolding be_val16_def be_bytes16_def
  by (cases bs; cases "tl bs"; simp add: be_bytes16_push del: drop_bit_or)

lemma be_val32_bytes: "be_val32 (be_bytes32 w) = w"
  unfolding be_val32_def be_bytes32_def
  apply (rule bit_word_eqI)
  subgoal for n
    by (cases "n < 8"; cases "n < 16"; cases "n < 24") (auto simp: bit_simps)
  done

lemma be_bytes32_push:
  fixes a b c d :: u8
  defines "w \<equiv> (push_bit 24 (ucast a) OR push_bit 16 (ucast b) OR push_bit 8 (ucast c) OR ucast d :: u32)"
  shows "ucast (drop_bit 24 w) = a" "ucast (drop_bit 16 w) = b" "ucast (drop_bit 8 w) = c"
    "ucast w = d"
  unfolding w_def
  by (rule bit_word_eqI; auto simp: bit_simps dest: bit_imp_le_length)+

lemma list4:
  assumes "length bs = 4"
  obtains a b c d where "bs = [a, b, c, d]"
proof -
  from assms obtain a bs1 where "bs = a # bs1" "length bs1 = 3" by (cases bs) auto
  moreover then obtain b bs2 where "bs1 = b # bs2" "length bs2 = 2" by (cases bs1) auto
  moreover then obtain c bs3 where "bs2 = c # bs3" "length bs3 = 1" by (cases bs2) auto
  moreover then obtain d where "bs3 = [d]" by (cases bs3) auto
  ultimately show ?thesis using that by simp
qed

lemma be_bytes32_val: "length bs = 4 \<Longrightarrow> be_bytes32 (be_val32 bs) = bs"
  by (erule list4) (simp add: be_val32_def be_bytes32_def be_bytes32_push del: drop_bit_or)

lemma length_be_bytes [simp]: "length (be_bytes16 w) = 2" "length (be_bytes32 v) = 4"
  by (simp_all add: be_bytes16_def be_bytes32_def)

lemma NetworkToHost_host_val16:
  "length bs = 2 \<Longrightarrow> NetworkToHost le (host_val16 le bs) = be_val16 bs"
  by (simp add: NetworkToHost_def host_val16_def swap16_def be_bytes16_val)

lemma ByteSwapBE_host_val32:
  "length bs = 4 \<Longrightarrow> ByteSwapBE le (host_val32 le bs) = be_val32 bs"
  by (simp add: ByteSwapBE_def host_val32_def swap32_def be_bytes32_val)

lemma host_bytes16_HostToNetwork: "host_bytes16 le (HostToNetwork le w) = be_bytes16 w"
  by (simp add: HostToNetwork_def host_bytes16_def swap16_def be_bytes16_val)

lemma host_bytes32_ByteSwapBE: "host_bytes32 le (ByteSwapBE le w) = be_bytes32 w"
  by (simp add: ByteSwapBE_def host_bytes32_def swap32_def be_bytes32_val)

lemma length_header_bytes [simp]: "length (header_bytes le h) = 6"
  by (simp add: header_bytes_def host_bytes16_def host_bytes32_def)

text \<open>The buffer of \<open>SendPacket\<close> is the same on every host: the wire format.\<close>

lemma SendPacket_buffer_wire:
  "SendPacket_buffer le p =
     be_bytes16 (Size (Header p) + 4) @ be_bytes32 (Id (Header p)) @ Data p"
  by (simp add: SendPacket_buffer_def Let_def header_bytes_def host_bytes16_HostToNetwork
      host_bytes32_ByteSwapBE sizeof_Id_def)

lemma length_SendPacket_buffer: "length (SendPacket_buffer le p) = 6 + length (Data p)"
  by (simp add: SendPacket_buffer_wire)

text \<open>A receive that fills the whole header at once replaces it.\<close>

lemma receive_into_header_whole:
  "length bytes = 6 \<Longrightarrow> receive_into_header le h bytes = header_of_bytes le bytes"
  by (simp add: receive_into_header_def)

lemma header_of_bytes_wire:
  assumes "6 \<le> length bs"
  shows "NetworkToHost le (Size (header_of_bytes le bs)) = be_val16 (take 2 bs)"
    and "ByteSwapBE le (Id (header_of_bytes le bs)) = be_val32 (take 4 (drop 2 bs))"
  using assms
  by (simp_all add: header_of_bytes_def NetworkToHost_host_val16 ByteSwapBE_host_val32)

text \<open>The header phase of \<open>ReadPacket\<close> when the receive completes the header.\<close>

lemma ReadPacket_header_complete:
  assumes "BytesTransferred (InboundPacket c) < 6"
    and "rx (Socket c) = Bytes bs # evs"
    and "6 - BytesTransferred (InboundPacket c) \<le> length bs"
  shows "ReadPacket le cmd now c =
     (let n = 6 - BytesTransferred (InboundPacket c);
          h1 = receive_into_header le (Header (InboundPacket c)) (take n bs);
          size1 = NetworkToHost le (Size h1)
      in ReadPacket_body cmd now
           (c\<lparr>Socket := (Socket c)\<lparr>rx := (if length bs \<le> n then evs else Bytes (drop n bs) # evs)\<rparr>,
              InboundPacket := (InboundPacket c)
                \<lparr>BytesTransferred := 6,
                 Header := \<lparr>Size = size1 - min size1 4, Id = ByteSwapBE le (Id h1)\<rparr>\<rparr>\<rparr>))"
  using assms
  by (simp add: ReadPacket_def ReceiveData_def Let_def sizeof_header_def sizeof_Id_def)

lemma ReadPacket_body_Header:
  "Header (InboundPacket (snd (ReadPacket_body cmd now c))) = Header (InboundPacket c)"
  by (simp add: ReadPacket_body_def Let_def RecordPacketStats_def Write_def
      split: prod.splits sum.splits)

subsection \<open>The size field on the wire\<close>

lemma unat_of_nat_u16: "n < 65536 \<Longrightarrow> unat (of_nat n :: u16) = n"
  by (simp add: unat_of_nat)

lemma size_adjustment_cancels:
  assumes "n \<le> 65531"
  shows "unat (of_nat n + 4 :: u16) = n + 4"
    and "(of_nat n + 4 :: u16) - min (of_nat n + 4) 4 = of_nat n"
proof -
  have "(of_nat n + 4 :: u16) = of_nat (n + 4)" by simp
  then show u: "unat (of_nat n + 4 :: u16) = n + 4"
    using assms unat_of_nat_u16 [of "n + 4"] by simp
  then have "(4 :: u16) \<le> of_nat n + 4"
    by (simp add: word_le_nat_alt)
  then have "min (of_nat n + 4 :: u16) 4 = 4" by (simp add: min_def)
  then show "(of_nat n + 4 :: u16) - min (of_nat n + 4) 4 = of_nat n" by simp
qed

lemma queued_packet_stamped:
  "AuthStatus c = Ok \<or> \<not> CommandRequiresAuth cmd p \<Longrightarrow> queued_packet cmd c p = stamp_size p"
  by (auto simp: queued_packet_def QueuePacket_def Let_def stamp_size_def)

text \<open>
  Claim C3, as amended. For every body of 0 to 65531 bytes: the size field that the send
  path puts on the wire is the body length plus 4 (the size of the command); the
  adjustment of the receiving side, applied to that wire value, gives the body length
  again, so the subtraction cancels the addition; and every call of \<open>ReadPacket\<close> that
  completes the header with a size field that decodes to that wire value leaves a header
  size equal to the body length. This is so in particular for every call on an inbound
  packet with no bytes transferred whose first receive delivers the six header bytes.
  What a header received in parts decodes to is not stated here.
\<close>

theorem header_size_wire_compatibility:
  assumes "AuthStatus c = Ok \<or> \<not> CommandRequiresAuth cmd p"
    and "length (Data p) \<le> 65531"
  shows "unat (be_val16 (take 2 (SendPacket_buffer le (queued_packet cmd c p)))) =
           length (Data p) + 4 \<and>
         unat (be_val16 (take 2 (SendPacket_buffer le (queued_packet cmd c p))) -
               min (be_val16 (take 2 (SendPacket_buffer le (queued_packet cmd c p))))
                 (of_nat sizeof_Id)) = length (Data p) \<and>
         (\<forall>r bs evs.
            BytesTransferred (InboundPacket r) < 6 \<and> rx (Socket r) = Bytes bs # evs \<and>
            6 - BytesTransferred (InboundPacket r) \<le> length bs \<and>
            NetworkToHost le' (Size (receive_into_header le' (Header (InboundPacket r))
              (take (6 - BytesTransferred (InboundPacket r)) bs))) =
              be_val16 (take 2 (SendPacket_buffer le (queued_packet cmd c p))) \<longrightarrow>
            unat (Size (Header (InboundPacket (snd (ReadPacket le' cmd' now r))))) =
              length (Data p)) \<and>
         (\<forall>r bs evs.
            BytesTransferred (InboundPacket r) = 0 \<and> rx (Socket r) = Bytes bs # evs \<and>
            take 6 bs = take 6 (SendPacket_buffer le (queued_packet cmd c p)) \<longrightarrow>
            unat (Size (Header (InboundPacket (snd (ReadPacket le' cmd' now r))))) =
              length (Data p))"
proof -
  let ?n = "length (Data p)"
  let ?buf = "SendPacket_buffer le (queued_packet cmd c p)"
  have q: "queued_packet cmd c p = stamp_size p"
    using assms(1) by (rule queued_packet_stamped)
  have buf2: "take 2 ?buf = be_bytes16 (of_nat ?n + 4)"
    by (simp add: q SendPacket_buffer_wire stamp_size_def)
  then have wire: "be_val16 (take 2 ?buf) = of_nat ?n + 4"
    by (simp add: be_val16_bytes)
  have first: "unat (be_val16 (take 2 ?buf)) = ?n + 4"
    using assms(2) by (simp add: wire size_adjustment_cancels)
  have cancel: "be_val16 (take 2 ?buf) - min (be_val16 (take 2 ?buf)) (of_nat sizeof_Id) =
                  of_nat ?n"
    using size_adjustment_cancels(2) [OF assms(2)] by (simp add: wire sizeof_Id_def)
  then have second: "unat (be_val16 (take 2 ?buf) -
      min (be_val16 (take 2 ?buf)) (of_nat sizeof_Id)) = ?n"
    using assms(2) by (simp add: unat_of_nat_u16)
  have completing: "unat (Size (Header (InboundPacket (snd (ReadPacket le' cmd' now r))))) = ?n"
    if bt: "BytesTransferred (InboundPacket r) < 6"
      and rx: "rx (Socket r) = Bytes bs # evs"
      and enough: "6 - BytesTransferred (InboundPacket r) \<le> length bs"
      and field: "NetworkToHost le' (Size (receive_into_header le' (Header (InboundPacket r))
              (take (6 - BytesTransferred (InboundPacket r)) bs))) = be_val16 (take 2 ?buf)"
    for r bs evs
  proof -
    have "Size (Header (InboundPacket (snd (ReadPacket le' cmd' now r)))) = of_nat ?n"
      by (simp add: ReadPacket_header_complete [OF bt rx enough] Let_def
          ReadPacket_body_Header field wire size_adjustment_cancels [OF assms(2)])
    then show ?thesis
      using assms(2) by (simp add: unat_of_nat_u16)
  qed
  have whole: "unat (Size (Header (InboundPacket (snd (ReadPacket le' cmd' now r))))) = ?n"
    if bt: "BytesTransferred (InboundPacket r) = 0"
      and rx: "rx (Socket r) = Bytes bs # evs"
      and hdr: "take 6 bs = take 6 ?buf"
    for r bs evs
  proof -
    have "length (take 6 bs) = 6"
      using hdr by (simp add: length_SendPacket_buffer)
    then have len: "6 \<le> length bs" by simp
    have "take 2 bs = take 2 (take 6 bs)" by simp
    also have "\<dots> = take 2 ?buf" using hdr by simp
    finally have bs2: "take 2 bs = be_bytes16 (of_nat ?n + 4)" using buf2 by simp
    have "NetworkToHost le' (Size (receive_into_header le' (Header (InboundPacket r))
            (take (6 - BytesTransferred (InboundPacket r)) bs))) = be_val16 (take 2 ?buf)"
      using len bt
      by (simp add: receive_into_header_whole header_of_bytes_wire bs2 be_val16_bytes wire)
    then show ?thesis
      using completing [of r bs evs] bt rx len by simp
  qed
  from first second completing whole show ?thesis by blast
qed

theorem header_size_wire_compatibility_witness:
  "length (Data packet_C) \<le> 65531 \<and>
   unat (be_val16 (take 2 (SendPacket_buffer True
      (queued_packet cmd_numbering fresh_connection packet_C)))) = 7 \<and>
   unat (be_val16 (take 2 (SendPacket_buffer True
      (queued_packet cmd_numbering fresh_connection packet_C))) -
         min (be_val16 (take 2 (SendPacket_buffer True
      (queued_packet cmd_numbering fresh_connection packet_C)))) (of_nat sizeof_Id)) = 3 \<and>
   BytesTransferred (InboundPacket (fresh_connection\<lparr>Socket := idle_socket\<lparr>rx :=
      [Bytes (SendPacket_buffer True
         (queued_packet cmd_numbering fresh_connection packet_C))]\<rparr>\<rparr>)) = 0 \<and>
   unat (Size (Header (InboundPacket (snd (ReadPacket False cmd_numbering 7
      (fresh_connection\<lparr>Socket := idle_socket\<lparr>rx := [Bytes (SendPacket_buffer True
         (queued_packet cmd_numbering fresh_connection packet_C))]\<rparr>\<rparr>)))))) = 3"
proof -
  let ?buf = "SendPacket_buffer True (queued_packet cmd_numbering fresh_connection packet_C)"
  let ?r = "fresh_connection\<lparr>Socket := idle_socket\<lparr>rx := [Bytes ?buf]\<rparr>\<rparr>"
  have auth: "AuthStatus fresh_connection = Ok \<or> \<not> CommandRequiresAuth cmd_numbering packet_C"
    by (simp add: CommandRequiresAuth_def GetCommand_def packet_C_def cmd_numbering_def)
  have len: "length (Data packet_C) \<le> 65531" by (simp add: packet_C_def)
  have n: "length (Data packet_C) = 3" by (simp add: packet_C_def)
  have bt: "BytesTransferred (InboundPacket ?r) = 0"
    by (simp add: fresh_connection_def NetworkPacket_new_def)
  have rx: "rx (Socket ?r) = Bytes ?buf # []" by (simp add: idle_socket_def)
  note all = header_size_wire_compatibility [OF auth len, of True False cmd_numbering 7]
  from all have a: "unat (be_val16 (take 2 ?buf)) = length (Data packet_C) + 4"
    and b: "unat (be_val16 (take 2 ?buf) - min (be_val16 (take 2 ?buf)) (of_nat sizeof_Id)) =
              length (Data packet_C)"
    by blast+
  from all bt rx have d: "unat (Size (Header (InboundPacket (snd (ReadPacket False cmd_numbering 7 ?r))))) =
      length (Data packet_C)"
    by blast
  from len a b bt d show ?thesis
    unfolding n by simp
qed

text \<open>
  The claim as stated fails for a body of 65532 bytes: the 16-bit size field wraps around
  to 0 on the wire, and the receiver reconstructs a header size of 0.
\<close>

theorem header_size_wire_compatibility_counterexample:
  "length (Data ping_65532) = 65532 \<and>
   unat (be_val16 (take 2 (SendPacket_buffer True
      (queued_packet cmd_numbering fresh_connection ping_65532)))) = 0 \<and>
   unat (Size (Header (InboundPacket (snd (ReadPacket True cmd_numbering 7 receiving_65532))))) = 0 \<and>
   unat (be_val16 (take 2 (SendPacket_buffer True
      (queued_packet cmd_numbering fresh_connection ping_65532)))) \<noteq>
     length (Data ping_65532) + 4 \<and>
   unat (Size (Header (InboundPacket (snd (ReadPacket True cmd_numbering 7 receiving_65532))))) \<noteq>
     length (Data ping_65532)"
proof -
  have q: "queued_packet cmd_numbering fresh_connection ping_65532 =
             ping_65532\<lparr>Header := \<lparr>Size = 65532, Id = 6\<rparr>\<rparr>"
    by (simp add: queued_packet_def QueuePacket_def CommandRequiresAuth_def GetCommand_def
        ping_65532_def NetworkPacket_new_def cmd_numbering_def fresh_connection_def Let_def)
  have buf: "SendPacket_buffer True (ping_65532\<lparr>Header := \<lparr>Size = 65532, Id = 6\<rparr>\<rparr>) =
               [0, 0, 0, 0, 0, 6] @ replicate 65532 0"
    by (simp add: SendPacket_buffer_def Let_def byte_order_defs sizeof_Id_def ping_65532_def
        NetworkPacket_new_def)
  have "Header (InboundPacket (snd (ReadPacket True cmd_numbering 7 receiving_65532))) =
          \<lparr>Size = 0, Id = 6\<rparr>"
    unfolding receiving_65532_def q buf
    by (simp add: ReadPacket_header_complete [where bs = "[0, 0, 0, 0, 0, 6] @ replicate 65532 0" and evs = "[]"]
        fresh_connection_def idle_socket_def NetworkPacket_new_def Let_def ReadPacket_body_Header
        receive_into_header_def byte_order_defs)
  moreover have "length (Data ping_65532) = 65532"
    by (simp add: ping_65532_def)
  moreover have "be_val16 (take 2 (SendPacket_buffer True
      (queued_packet cmd_numbering fresh_connection ping_65532))) = 0"
    unfolding q buf by (simp add: be_val16_def)
  ultimately show ?thesis by simp
qed

subsection \<open>Undersized wire lengths\<close>


lemma ReadPacket_body_empty:
  assumes "Size (Header (InboundPacket c)) = 0"
    and "BytesTransferred (InboundPacket c) = 6"
    and "Data (InboundPacket c) = []"
  shows "ReadPacket_body cmd now c =
     (Success, RecordPacketStats cmd (c\<lparr>lastPacketTime := now\<rparr>) (InboundPacket c) False)"
  using assms by (simp add: ReadPacket_body_def Let_def size_t_sub_def sizeof_header_def)



subsection \<open>A header received in parts\<close>

text \<open>One call of \<open>ReadPacket\<close> that leaves the header incomplete.\<close>

lemma ReadPacket_header_partial:
  assumes "rx (Socket c) = Bytes bs # evs"
    and "BytesTransferred (InboundPacket c) + length bs < 6"
  shows "ReadPacket le cmd now c =
     (MoreData,
      c\<lparr>Socket := (Socket c)\<lparr>rx := evs\<rparr>,
        InboundPacket := (InboundPacket c)
          \<lparr>BytesTransferred := BytesTransferred (InboundPacket c) + length bs,
           Header := receive_into_header le (Header (InboundPacket c)) bs\<rparr>\<rparr>)"
  using assms by (simp add: ReadPacket_def ReceiveData_def Let_def sizeof_header_def)

text \<open>
  Claim C2 at a concrete input. The header bytes 00 09 00 00 00 02 (size 9, command 2)
  received in one chunk decode to size 5 and command 2. Received in two chunks of three
  bytes, the second chunk overwrites the first three bytes of the header instead of
  filling the last three: the header decodes to size 0 and command 0x02FFFFFF, and the
  call reports a complete packet.
\<close>

theorem partial_header_receive_evaluated:
  "Header (InboundPacket (snd (ReadPacket True cmd_numbering 7
      (receiving [[0, 9, 0, 0, 0, 2]])))) = \<lparr>Size = 5, Id = 2\<rparr> \<and>
   fst (ReadPacket True cmd_numbering 7 (receiving [[0, 9, 0], [0, 0, 2]])) = MoreData \<and>
   fst (ReadPacket True cmd_numbering 7
      (snd (ReadPacket True cmd_numbering 7 (receiving [[0, 9, 0], [0, 0, 2]])))) = Success \<and>
   Header (InboundPacket (snd (ReadPacket True cmd_numbering 7
      (snd (ReadPacket True cmd_numbering 7 (receiving [[0, 9, 0], [0, 0, 2]])))))) =
     \<lparr>Size = 0, Id = 0x02FFFFFF\<rparr>"
proof -
  have one: "Header (InboundPacket (snd (ReadPacket True cmd_numbering 7
      (receiving [[0, 9, 0, 0, 0, 2]])))) = \<lparr>Size = 5, Id = 2\<rparr>"
    by (simp add: ReadPacket_header_complete [where bs = "[0, 9, 0, 0, 0, 2]" and evs = "[]"]
        receiving_def example_defs Let_def ReadPacket_body_Header receive_into_header_def
        byte_order_defs)
  define c1 where "c1 = fresh_connection
     \<lparr>Socket := idle_socket\<lparr>rx := [Bytes [0, 0, 2]]\<rparr>,
      InboundPacket := \<lparr>Header = \<lparr>Size = 0x0900, Id = 0xFFFFFF00\<rparr>, Data = [],
        BytesTransferred = 3, BytesRead = 0\<rparr>\<rparr>"
  have first: "ReadPacket True cmd_numbering 7 (receiving [[0, 9, 0], [0, 0, 2]]) = (MoreData, c1)"
    by (simp add: ReadPacket_header_partial [where bs = "[0, 9, 0]" and evs = "[Bytes [0, 0, 2]]"]
        receiving_def example_defs c1_def receive_into_header_def byte_order_defs)
  have second: "ReadPacket True cmd_numbering 7 c1 =
     ReadPacket_body cmd_numbering 7
       (c1\<lparr>Socket := idle_socket,
           InboundPacket := \<lparr>Header = \<lparr>Size = 0, Id = 0x02FFFFFF\<rparr>, Data = [],
             BytesTransferred = 6, BytesRead = 0\<rparr>\<rparr>)"
    by (simp add: ReadPacket_header_complete [where bs = "[0, 0, 2]" and evs = "[]"]
        c1_def example_defs Let_def receive_into_header_def byte_order_defs)
  have completed: "fst (ReadPacket True cmd_numbering 7 c1) = Success"
    unfolding second by (simp add: ReadPacket_body_empty)
  have hdr: "Header (InboundPacket (snd (ReadPacket True cmd_numbering 7 c1))) =
     \<lparr>Size = 0, Id = 0x02FFFFFF\<rparr>"
    unfolding second by (simp add: ReadPacket_body_Header)
  show ?thesis using one first completed hdr by simp
qed

subsection \<open>The round trip through the wire\<close>

lemma ReadPacket_poll_MoreData:
  "ReadPacket le cmd now c = (MoreData, c') \<Longrightarrow>
   ReadPacket_poll (Suc n) le cmd now c = ReadPacket_poll n le cmd now c'"
  by simp

text \<open>
  Claim C1 at a concrete input. A packet of command 2 with the body 07 goes out as
  00 05 00 00 00 02 07. A receiver that gets these bytes in one chunk completes a packet
  with command 2 and body 07. A receiver that gets them one byte per receive writes every
  header byte over the first byte of the header: after the sixth byte the header decodes
  to size 508 and command 0xFFFFFFFF, and with all seven bytes consumed no packet is
  complete.
\<close>

theorem framing_round_trip_evaluated:
  "map_option (\<lambda>c. wire (Socket c)) sender_after = Some [0, 5, 0, 0, 0, 2, 7] \<and>
   fst (ReadPacket True cmd_numbering 7 (receiving [[0, 5, 0, 0, 0, 2, 7]])) = Success \<and>
   InboundPacket (snd (ReadPacket True cmd_numbering 7 (receiving [[0, 5, 0, 0, 0, 2, 7]]))) =
     \<lparr>Header = \<lparr>Size = 1, Id = 2\<rparr>, Data = [7], BytesTransferred = 7, BytesRead = 0\<rparr> \<and>
   fst (ReadPacket_poll 7 True cmd_numbering 7
      (receiving [[0], [5], [0], [0], [0], [2], [7]])) = MoreData \<and>
   InboundPacket (snd (ReadPacket_poll 7 True cmd_numbering 7
      (receiving [[0], [5], [0], [0], [0], [2], [7]]))) =
     \<lparr>Header = \<lparr>Size = 508, Id = 0xFFFFFFFF\<rparr>, Data = [7], BytesTransferred = 7,
      BytesRead = 0\<rparr> \<and>
   rx (Socket (snd (ReadPacket_poll 7 True cmd_numbering 7
      (receiving [[0], [5], [0], [0], [0], [2], [7]])))) = []"
proof -
  have sent: "map_option (\<lambda>c. wire (Socket c)) sender_after = Some [0, 5, 0, 0, 0, 2, 7]"
    by (simp add: sender_after_def QueuePacket_def example_defs chat_packet_def Let_def
        SendQueuedPackets.simps SendPacket_def SendPacket_buffer_def SendData_def
        byte_order_defs sizeof_Id_def RecordPacketStats_def)
  have whole: "ReadPacket True cmd_numbering 7 (receiving [[0, 5, 0, 0, 0, 2, 7]]) =
     ReadPacket_body cmd_numbering 7
       (fresh_connection\<lparr>Socket := idle_socket\<lparr>rx := [Bytes [7]]\<rparr>,
          InboundPacket := \<lparr>Header = \<lparr>Size = 1, Id = 2\<rparr>, Data = [],
            BytesTransferred = 6, BytesRead = 0\<rparr>\<rparr>)"
    by (simp add: ReadPacket_header_complete [where bs = "[0, 5, 0, 0, 0, 2, 7]" and evs = "[]"]
        receiving_def example_defs Let_def receive_into_header_def byte_order_defs)
  have whole_st: "fst (ReadPacket True cmd_numbering 7 (receiving [[0, 5, 0, 0, 0, 2, 7]])) = Success"
    unfolding whole
    by (simp add: ReadPacket_body_def ReceiveData_def example_defs size_t_sub_def
        sizeof_header_def NetworkBufferSize_def Write_def Let_def)
  have whole_pkt: "InboundPacket (snd (ReadPacket True cmd_numbering 7
       (receiving [[0, 5, 0, 0, 0, 2, 7]]))) =
     \<lparr>Header = \<lparr>Size = 1, Id = 2\<rparr>, Data = [7], BytesTransferred = 7, BytesRead = 0\<rparr>"
    unfolding whole
    by (simp add: ReadPacket_body_def ReceiveData_def example_defs size_t_sub_def
        sizeof_header_def NetworkBufferSize_def Write_def Let_def RecordPacketStats_Inbound)
  define c1 where "c1 = fresh_connection
     \<lparr>Socket := idle_socket\<lparr>rx := [Bytes [5], Bytes [0], Bytes [0], Bytes [0], Bytes [2], Bytes [7]]\<rparr>,
      InboundPacket := \<lparr>Header = \<lparr>Size = 0, Id = 0xFFFFFFFF\<rparr>, Data = [],
        BytesTransferred = 1, BytesRead = 0\<rparr>\<rparr>"
  define c2 where "c2 = fresh_connection
     \<lparr>Socket := idle_socket\<lparr>rx := [Bytes [0], Bytes [0], Bytes [0], Bytes [2], Bytes [7]]\<rparr>,
      InboundPacket := \<lparr>Header = \<lparr>Size = 5, Id = 0xFFFFFFFF\<rparr>, Data = [],
        BytesTransferred = 2, BytesRead = 0\<rparr>\<rparr>"
  define c3 where "c3 = fresh_connection
     \<lparr>Socket := idle_socket\<lparr>rx := [Bytes [0], Bytes [0], Bytes [2], Bytes [7]]\<rparr>,
      InboundPacket := \<lparr>Header = \<lparr>Size = 0, Id = 0xFFFFFFFF\<rparr>, Data = [],
        BytesTransferred = 3, BytesRead = 0\<rparr>\<rparr>"
  define c4 where "c4 = fresh_connection
     \<lparr>Socket := idle_socket\<lparr>rx := [Bytes [0], Bytes [2], Bytes [7]]\<rparr>,
      InboundPacket := \<lparr>Header = \<lparr>Size = 0, Id = 0xFFFFFFFF\<rparr>, Data = [],
        BytesTransferred = 4, BytesRead = 0\<rparr>\<rparr>"
  define c5 where "c5 = fresh_connection
     \<lparr>Socket := idle_socket\<lparr>rx := [Bytes [2], Bytes [7]]\<rparr>,
      InboundPacket := \<lparr>Header = \<lparr>Size = 0, Id = 0xFFFFFFFF\<rparr>, Data = [],
        BytesTransferred = 5, BytesRead = 0\<rparr>\<rparr>"
  define c6 where "c6 = fresh_connection
     \<lparr>Socket := idle_socket,
      InboundPacket := \<lparr>Header = \<lparr>Size = 508, Id = 0xFFFFFFFF\<rparr>, Data = [7],
        BytesTransferred = 7, BytesRead = 0\<rparr>\<rparr>"
  have s1: "ReadPacket True cmd_numbering 7 (receiving [[0], [5], [0], [0], [0], [2], [7]]) = (MoreData, c1)"
    by (simp add: ReadPacket_header_partial [where bs = "[0]" and evs = "[Bytes [5], Bytes [0], Bytes [0], Bytes [0], Bytes [2], Bytes [7]]"]
        receiving_def example_defs c1_def receive_into_header_def byte_order_defs)
  have s2: "ReadPacket True cmd_numbering 7 (c1) = (MoreData, c2)"
    by (simp add: ReadPacket_header_partial [where bs = "[5]" and evs = "[Bytes [0], Bytes [0], Bytes [0], Bytes [2], Bytes [7]]"]
        c1_def example_defs c2_def receive_into_header_def byte_order_defs)
  have s3: "ReadPacket True cmd_numbering 7 (c2) = (MoreData, c3)"
    by (simp add: ReadPacket_header_partial [where bs = "[0]" and evs = "[Bytes [0], Bytes [0], Bytes [2], Bytes [7]]"]
        c2_def example_defs c3_def receive_into_header_def byte_order_defs)
  have s4: "ReadPacket True cmd_numbering 7 (c3) = (MoreData, c4)"
    by (simp add: ReadPacket_header_partial [where bs = "[0]" and evs = "[Bytes [0], Bytes [2], Bytes [7]]"]
        c3_def example_defs c4_def receive_into_header_def byte_order_defs)
  have s5: "ReadPacket True cmd_numbering 7 (c4) = (MoreData, c5)"
    by (simp add: ReadPacket_header_partial [where bs = "[0]" and evs = "[Bytes [2], Bytes [7]]"]
        c4_def example_defs c5_def receive_into_header_def byte_order_defs)
  have s6: "ReadPacket True cmd_numbering 7 c5 = (MoreData, c6)"
  proof -
    have "ReadPacket True cmd_numbering 7 c5 =
       ReadPacket_body cmd_numbering 7
         (fresh_connection\<lparr>Socket := idle_socket\<lparr>rx := [Bytes [7]]\<rparr>,
            InboundPacket := \<lparr>Header = \<lparr>Size = 508, Id = 0xFFFFFFFF\<rparr>, Data = [],
              BytesTransferred = 6, BytesRead = 0\<rparr>\<rparr>)"
      by (simp add: ReadPacket_header_complete [where bs = "[2]" and evs = "[Bytes [7]]"]
          c5_def example_defs Let_def receive_into_header_def byte_order_defs)
    then show ?thesis
      by (simp add: ReadPacket_body_def ReceiveData_def example_defs size_t_sub_def
          sizeof_header_def NetworkBufferSize_def Write_def Let_def c6_def)
  qed
  have s7: "ReadPacket True cmd_numbering 7 c6 = (MoreData, c6)"
    by (simp add: ReadPacket_def ReadPacket_body_def ReceiveData_def example_defs size_t_sub_def
        sizeof_header_def NetworkBufferSize_def Let_def c6_def)
  have n7: "(7 :: nat) = Suc (Suc (Suc (Suc (Suc (Suc (Suc 0))))))" by simp
  have "ReadPacket_poll 7 True cmd_numbering 7 (receiving [[0], [5], [0], [0], [0], [2], [7]]) =
     ReadPacket_poll 0 True cmd_numbering 7 c6"
    unfolding n7
    by (simp only: ReadPacket_poll_MoreData [OF s1] ReadPacket_poll_MoreData [OF s2]
        ReadPacket_poll_MoreData [OF s3] ReadPacket_poll_MoreData [OF s4]
        ReadPacket_poll_MoreData [OF s5] ReadPacket_poll_MoreData [OF s6]
        ReadPacket_poll_MoreData [OF s7])
  then have poll: "ReadPacket_poll 7 True cmd_numbering 7
      (receiving [[0], [5], [0], [0], [0], [2], [7]]) = (MoreData, c6)"
    by simp
  show ?thesis
    unfolding poll using sent whole_st whole_pkt by (simp add: c6_def example_defs)
qed

subsection \<open>The bytes that ReadString inspects\<close>

text \<open>
  Without a terminator at or after the cursor the scan loop runs to the end of the body,
  and the check after the loop reads the byte at index \<open>length data\<close>, one past the
  last byte of the body.
\<close>

lemma ReadString_loop_no_terminator:
  assumes "\<forall>i. bytesRead \<le> i \<and> i < length data \<longrightarrow> data ! i \<noteq> 0"
    and "bytesRead = str + stringLen"
    and "bytesRead \<le> length data"
  shows "ReadString_loop past data str bytesRead stringLen log =
           (length data, length data - str, log @ [bytesRead..<length data])"
  using assms
proof (induction past data str bytesRead stringLen log rule: ReadString_loop.induct)
  case (1 past data str bytesRead stringLen log)
  show ?case
  proof (cases "bytesRead < length data")
    case False
    with "1.prems" show ?thesis
      by (subst ReadString_loop.simps) simp
  next
    case True
    with "1.prems" have nz: "byte_at past data (str + stringLen) \<noteq> 0"
      by (simp add: byte_at_def)
    have "ReadString_loop past data str (bytesRead + 1) (stringLen + 1) (log @ [str + stringLen]) =
            (length data, length data - str,
             (log @ [str + stringLen]) @ [bytesRead + 1..<length data])"
      using "1.prems" True by (intro "1.IH" [OF True nz]) auto
    with True nz "1.prems" show ?thesis
      by (subst ReadString_loop.simps) (simp add: upt_conv_Cons)
  qed
qed

lemma ReadString_no_terminator:
  assumes "BytesRead p < length (Data p)"
    and "\<forall>i. BytesRead p \<le> i \<and> i < length (Data p) \<longrightarrow> Data p ! i \<noteq> 0"
  shows "snd (snd (ReadString past p)) = [BytesRead p..<length (Data p)] @ [length (Data p)]"
  using assms
  by (simp add: ReadString_def Let_def ReadString_loop_no_terminator [where log = "[]"])

text \<open>
  Claim C9 at a concrete input. On the body "abc" (no terminator) with the cursor at 0,
  \<open>ReadString\<close> reads the indices 0, 1, 2 and then 3, which is the length of the body.
  What it returns depends on the byte it finds there: with a zero byte past the end it
  returns "abc" and leaves the cursor at 4, beyond the body; otherwise it fails.
\<close>

theorem ReadString_reads_past_end:
  "length (Data abc_packet) = 3 \<and>
   snd (snd (ReadString past abc_packet)) = [0, 1, 2, 3] \<and>
   ReadString (\<lambda>i. 0) abc_packet =
     (Some [97, 98, 99], abc_packet\<lparr>BytesRead := 4\<rparr>, [0, 1, 2, 3]) \<and>
   ReadString (\<lambda>i. 1) abc_packet = (None, abc_packet\<lparr>BytesRead := 3\<rparr>, [0, 1, 2, 3])"
proof -
  have loop: "ReadString_loop past [97, 98, 99] 0 0 0 [] = (3, 3, [0, 1, 2])" for past
    by (simp add: ReadString_loop.simps byte_at_def)
  have log: "snd (snd (ReadString past abc_packet)) = [0, 1, 2, 3]" for past
    by (simp add: ReadString_def abc_packet_def NetworkPacket_new_def loop byte_at_def Let_def)
  have zero: "ReadString (\<lambda>i. 0) abc_packet =
     (Some [97, 98, 99], abc_packet\<lparr>BytesRead := 4\<rparr>, [0, 1, 2, 3])"
    by (simp add: ReadString_def abc_packet_def NetworkPacket_new_def loop byte_at_def Let_def)
  have one: "ReadString (\<lambda>i. 1) abc_packet = (None, abc_packet\<lparr>BytesRead := 3\<rparr>, [0, 1, 2, 3])"
    by (simp add: ReadString_def abc_packet_def NetworkPacket_new_def loop byte_at_def Let_def)
  show ?thesis using log zero one by (simp add: abc_packet_def)
qed

subsection \<open>Sending in order\<close>

lemma SendPacket_buffer_BytesTransferred [simp]:
  "SendPacket_buffer le (p\<lparr>BytesTransferred := n\<rparr>) = SendPacket_buffer le p"
  by (simp add: SendPacket_buffer_def)

text \<open>
  One send: the bytes on the wire and the bytes of the packet still to be sent together
  stay the same.
\<close>

lemma take_drop_split: "take n (drop b xs) @ drop (b + n) xs = drop b xs"
  by (metis add.commute append_take_drop_id drop_drop)

lemma SendPacket_wire:
  assumes "BytesTransferred p \<le> length (SendPacket_buffer le p)"
  shows "\<exists>sendComplete p' c'.
           SendPacket le cmd c p = Some (sendComplete, p', c') \<and>
           wire (Socket c') @ drop (BytesTransferred p') (SendPacket_buffer le p) =
             wire (Socket c) @ drop (BytesTransferred p) (SendPacket_buffer le p) \<and>
           SendPacket_buffer le p' = SendPacket_buffer le p \<and>
           BytesTransferred p' \<le> length (SendPacket_buffer le p) \<and>
           sendComplete = (BytesTransferred p' = length (SendPacket_buffer le p)) \<and>
           AuthStatus c' = AuthStatus c \<and> outboundPackets c' = outboundPackets c"
proof (cases "tx_accept (Socket c)")
  case Nil
  with assms show ?thesis
    by (simp add: SendPacket_def SendData_def Let_def RecordPacketStats_def)
next
  case (Cons k ks)
  let ?buf = "SendPacket_buffer le p"
  define n where "n = min k (length (drop (BytesTransferred p) ?buf))"
  have sd: "SendData (Socket c) (drop (BytesTransferred p) ?buf) =
      (n, (Socket c)\<lparr>tx_accept := ks,
            wire := wire (Socket c) @ take n (drop (BytesTransferred p) ?buf)\<rparr>)"
    using Cons by (simp add: SendData_def Let_def n_def)
  have bound: "BytesTransferred p + n \<le> length ?buf"
    using assms by (simp add: n_def)
  have not_beyond: "\<not> length ?buf < BytesTransferred p"
    using assms by simp
  show ?thesis
  proof (cases "n > 0")
    case True
    then show ?thesis
      using bound not_beyond
      by (simp add: SendPacket_def sd Let_def RecordPacketStats_def take_drop_split)
  next
    case False
    then show ?thesis
      using assms not_beyond
      by (simp add: SendPacket_def sd Let_def RecordPacketStats_def)
  qed
qed

lemma pending_Cons:
  "pending le (p # q) = drop (BytesTransferred p) (SendPacket_buffer le p) @ pending le q"
  by (simp add: pending_def)

text \<open>Draining the queue keeps the order.\<close>

lemma SendQueuedPackets_wire:
  assumes "outboundPackets c = q" and "queue_in_order le q"
  shows "\<exists>c'. SendQueuedPackets le cmd c = Some c' \<and>
           wire (Socket c') @ pending le (outboundPackets c') = wire (Socket c) @ pending le q \<and>
           queue_in_order le (outboundPackets c') \<and> AuthStatus c' = AuthStatus c"
  using assms
proof (induction q arbitrary: c)
  case Nil
  then show ?case
    by (simp add: SendQueuedPackets.simps)
next
  case (Cons first rest)
  from Cons.prems have le1: "BytesTransferred first \<le> length (SendPacket_buffer le first)"
    and rest0: "\<forall>p \<in> set rest. BytesTransferred p = 0"
    by (simp_all add: queue_in_order_def)
  from SendPacket_wire [OF le1, of cmd c] obtain sendComplete first' c1 where
    sp: "SendPacket le cmd c first = Some (sendComplete, first', c1)"
    and w: "wire (Socket c1) @ drop (BytesTransferred first') (SendPacket_buffer le first) =
             wire (Socket c) @ drop (BytesTransferred first) (SendPacket_buffer le first)"
    and buf: "SendPacket_buffer le first' = SendPacket_buffer le first"
    and le2: "BytesTransferred first' \<le> length (SendPacket_buffer le first)"
    and compl: "sendComplete = (BytesTransferred first' = length (SendPacket_buffer le first))"
    and auth: "AuthStatus c1 = AuthStatus c"
    by blast
  show ?case
  proof (cases sendComplete)
    case True
    have ord: "queue_in_order le rest"
      using rest0 by (simp add: queue_in_order_def) (metis list.sel(2) list.set_sel(2))
    from Cons.IH [of "c1\<lparr>outboundPackets := rest\<rparr>", OF _ ord] obtain c' where
      c': "SendQueuedPackets le cmd (c1\<lparr>outboundPackets := rest\<rparr>) = Some c'"
      "wire (Socket c') @ pending le (outboundPackets c') = wire (Socket c1) @ pending le rest"
      "queue_in_order le (outboundPackets c')" "AuthStatus c' = AuthStatus c1"
      by auto
    have "SendQueuedPackets le cmd c = Some c'"
      using Cons.prems(1) sp True c'(1) by (subst SendQueuedPackets.simps) simp
    moreover have "wire (Socket c1) = wire (Socket c) @
        drop (BytesTransferred first) (SendPacket_buffer le first)"
      using w True compl by simp
    ultimately show ?thesis
      using c' auth by (simp add: pending_Cons)
  next
    case False
    have "SendQueuedPackets le cmd c = Some (c1\<lparr>outboundPackets := first' # rest\<rparr>)"
      using Cons.prems(1) sp False by (subst SendQueuedPackets.simps) simp
    moreover have "queue_in_order le (first' # rest)"
      using rest0 le2 buf by (simp add: queue_in_order_def)
    ultimately show ?thesis
      using w buf auth by (simp add: pending_Cons)
  qed
qed

text \<open>Queueing at the tail keeps the order.\<close>

lemma QueuePacket_tail:
  "QueuePacket cmd c p False =
     (if AuthStatus c = Ok \<or> \<not> CommandRequiresAuth cmd p
      then c\<lparr>outboundPackets := outboundPackets c @ [stamp_size p]\<rparr> else c)"
  by (simp add: QueuePacket_def Let_def stamp_size_def)

lemma pending_append: "pending le (q @ r) = pending le q @ pending le r"
  by (simp add: pending_def)

lemma queue_in_order_snoc:
  assumes "queue_in_order le q" and "BytesTransferred p = 0"
  shows "queue_in_order le (q @ [p])"
  using assms by (cases q) (auto simp: queue_in_order_def)

lemma run_calls_wire:
  assumes "queue_in_order le (outboundPackets c)"
    and "\<forall>p. Queue p \<in> set calls \<longrightarrow> BytesTransferred p = 0"
  shows "\<exists>c'. run_calls le cmd calls c = Some c' \<and>
           wire (Socket c') @ pending le (outboundPackets c') =
             wire (Socket c) @ pending le (outboundPackets c) @
               concat (map (SendPacket_buffer le) (accepted cmd (AuthStatus c) calls)) \<and>
           queue_in_order le (outboundPackets c')"
  using assms
proof (induction calls arbitrary: c)
  case Nil
  from Nil.prems(1) show ?case by simp
next
  case (Cons call calls)
  from Cons.prems(2) have calls0: "\<forall>p. Queue p \<in> set calls \<longrightarrow> BytesTransferred p = 0"
    by (meson list.set_intros(2))
  show ?case
  proof (cases call)
    case (Queue p)
    with Cons.prems(2) have p0: "BytesTransferred p = 0"
      by (meson list.set_intros(1))
    let ?c1 = "QueuePacket cmd c p False"
    have ord: "queue_in_order le (outboundPackets ?c1)"
      using Cons.prems(1) p0
      by (simp add: QueuePacket_tail queue_in_order_snoc stamp_size_def)
    have auth: "AuthStatus ?c1 = AuthStatus c"
      by (simp add: QueuePacket_tail)
    have pend: "pending le (outboundPackets ?c1) =
        pending le (outboundPackets c) @
          concat (map (SendPacket_buffer le)
            (if AuthStatus c = Ok \<or> \<not> CommandRequiresAuth cmd p then [stamp_size p] else []))"
      using p0 by (simp add: QueuePacket_tail pending_append pending_def stamp_size_def)
    have wire1: "wire (Socket ?c1) = wire (Socket c)"
      by (simp add: QueuePacket_tail)
    from Cons.IH [OF ord calls0] obtain c' where
      r1: "run_calls le cmd calls ?c1 = Some c'" and
      r2: "wire (Socket c') @ pending le (outboundPackets c') =
         wire (Socket ?c1) @ pending le (outboundPackets ?c1) @
           concat (map (SendPacket_buffer le) (accepted cmd (AuthStatus ?c1) calls))" and
      r3: "queue_in_order le (outboundPackets c')"
      by blast
    have a: "run_calls le cmd (call # calls) c = Some c'"
      using r1 Queue by simp
    have b: "wire (Socket c') @ pending le (outboundPackets c') =
             wire (Socket c) @ pending le (outboundPackets c) @
               concat (map (SendPacket_buffer le) (accepted cmd (AuthStatus c) (call # calls)))"
      unfolding r2 pend wire1 auth Queue by simp
    from a b r3 show ?thesis by blast
  next
    case Drain
    from SendQueuedPackets_wire [OF refl Cons.prems(1), of cmd] obtain c1 where
      c1: "SendQueuedPackets le cmd c = Some c1"
      "wire (Socket c1) @ pending le (outboundPackets c1) =
         wire (Socket c) @ pending le (outboundPackets c)"
      "queue_in_order le (outboundPackets c1)" "AuthStatus c1 = AuthStatus c"
      by blast
    from Cons.IH [OF c1(3) calls0] obtain c' where
      r1: "run_calls le cmd calls c1 = Some c'" and
      r2: "wire (Socket c') @ pending le (outboundPackets c') =
         wire (Socket c1) @ pending le (outboundPackets c1) @
           concat (map (SendPacket_buffer le) (accepted cmd (AuthStatus c1) calls))" and
      r3: "queue_in_order le (outboundPackets c')"
      by blast
    have a: "run_calls le cmd (call # calls) c = Some c'"
      using r1 c1(1) Drain by simp
    have "wire (Socket c') @ pending le (outboundPackets c') =
         (wire (Socket c1) @ pending le (outboundPackets c1)) @
           concat (map (SendPacket_buffer le) (accepted cmd (AuthStatus c) calls))"
      using r2 c1(4) by simp
    then have b: "wire (Socket c') @ pending le (outboundPackets c') =
             wire (Socket c) @ pending le (outboundPackets c) @
               concat (map (SendPacket_buffer le) (accepted cmd (AuthStatus c) (call # calls)))"
      unfolding c1(2) Drain by simp
    from a b r3 show ?thesis by blast
  qed
qed

text \<open>
  Claim C4. Start from a queue in order (the empty queue is) and run any sequence of tail
  enqueues of new packets and of \<open>SendQueuedPackets\<close> calls, against a transport that
  takes any number of bytes per send. Then no send has undefined behaviour, and the bytes
  on the wire followed by the bytes still pending in the queue are the bytes that were
  pending at the start followed by the whole buffers of the accepted packets, in the order
  of their enqueues: the wire is a prefix of the packets' bytes in queue order, so every
  byte of a packet is on the wire before any byte of the next one. The queue is in order
  again.
\<close>

theorem strict_in_order_delivery:
  assumes "queue_in_order le (outboundPackets c)"
    and "\<forall>p. Queue p \<in> set calls \<longrightarrow> BytesTransferred p = 0"
  shows "\<exists>c'. run_calls le cmd calls c = Some c' \<and>
           wire (Socket c') @ pending le (outboundPackets c') =
             wire (Socket c) @ pending le (outboundPackets c) @
               concat (map (SendPacket_buffer le) (accepted cmd (AuthStatus c) calls)) \<and>
           wire (Socket c') =
             take (length (wire (Socket c')))
               (wire (Socket c) @ pending le (outboundPackets c) @
                  concat (map (SendPacket_buffer le) (accepted cmd (AuthStatus c) calls))) \<and>
           queue_in_order le (outboundPackets c')"
proof -
  from run_calls_wire [OF assms, of cmd] obtain c' where
    r: "run_calls le cmd calls c = Some c'"
    "wire (Socket c') @ pending le (outboundPackets c') =
       wire (Socket c) @ pending le (outboundPackets c) @
         concat (map (SendPacket_buffer le) (accepted cmd (AuthStatus c) calls))"
    "queue_in_order le (outboundPackets c')"
    by blast
  have "take (length (wire (Socket c'))) (wire (Socket c') @ pending le (outboundPackets c')) =
          wire (Socket c')"
    by simp
  then have "wire (Socket c') =
      take (length (wire (Socket c')))
        (wire (Socket c) @ pending le (outboundPackets c) @
           concat (map (SendPacket_buffer le) (accepted cmd (AuthStatus c) calls)))"
    unfolding r(2) by simp
  with r show ?thesis by blast
qed

theorem strict_in_order_delivery_witness:
  "outboundPackets one_byte_transport = [] \<and>
   BytesTransferred packet_A = 0 \<and> BytesTransferred packet_B = 0 \<and>
   BytesTransferred packet_C = 0 \<and>
   (\<exists>c'. run_calls True cmd_numbering three_packets one_byte_transport = Some c' \<and>
      wire (Socket c') @ pending True (outboundPackets c') =
        SendPacket_buffer True (stamp_size packet_A) @
        SendPacket_buffer True (stamp_size packet_B) @
        SendPacket_buffer True (stamp_size packet_C) \<and>
      queue_in_order True (outboundPackets c'))"
proof -
  have q: "outboundPackets one_byte_transport = []"
    by (simp add: one_byte_transport_def fresh_connection_def)
  then have ord: "queue_in_order True (outboundPackets one_byte_transport)"
    by (simp add: queue_in_order_def)
  have bt: "BytesTransferred packet_A = 0" "BytesTransferred packet_B = 0"
    "BytesTransferred packet_C = 0"
    by (simp_all add: packet_A_def packet_B_def packet_C_def)
  then have new: "\<forall>p. Queue p \<in> set three_packets \<longrightarrow> BytesTransferred p = 0"
    by (auto simp: three_packets_def)
  have acc: "accepted cmd_numbering (AuthStatus one_byte_transport) three_packets =
      [stamp_size packet_A, stamp_size packet_B, stamp_size packet_C]"
    by (simp add: three_packets_def one_byte_transport_def)
  have w: "wire (Socket one_byte_transport) = []"
    by (simp add: one_byte_transport_def idle_socket_def)
  show ?thesis
    using strict_in_order_delivery [OF ord new, of cmd_numbering] q bt
    by (auto simp: acc w pending_def)
qed

subsection \<open>Partial header receives in general\<close>

text \<open>
  The defect behind both evaluations, for every host byte order, every content of the
  inbound header and every six header bytes: a receive that resumes a partial header
  writes at the start of the header again.
\<close>

lemma host_bytes_val:
  "length xs = 2 \<Longrightarrow> host_bytes16 le (host_val16 le xs) = xs"
  "length ys = 4 \<Longrightarrow> host_bytes32 le (host_val32 le ys) = ys"
  by (simp_all add: host_bytes16_def host_val16_def host_bytes32_def host_val32_def
      be_bytes16_val be_bytes32_val)

lemma header_bytes_of_bytes:
  assumes "length bs = 6"
  shows "header_bytes le (header_of_bytes le bs) = bs"
proof -
  have "header_bytes le (header_of_bytes le bs) = take 2 bs @ take 4 (drop 2 bs)"
    using assms by (simp add: header_bytes_def header_of_bytes_def host_bytes_val)
  also have "\<dots> = take 2 bs @ drop 2 bs"
    using assms by simp
  finally show ?thesis by simp
qed

lemma header_bytes_receive_into_header:
  assumes "length bytes \<le> 6"
  shows "header_bytes le (receive_into_header le h bytes) =
           bytes @ drop (length bytes) (header_bytes le h)"
  using assms by (simp add: receive_into_header_def header_bytes_of_bytes)

lemma partial_header_overwrites:
  assumes "BytesTransferred (InboundPacket c) = 0"
    and "rx (Socket c) = Bytes [w0, w1, w2] # Bytes [w3, w4, w5] # evs"
  shows "Header (InboundPacket (snd (ReadPacket le cmd now (snd (ReadPacket le cmd now c))))) =
           \<lparr>Size = be_val16 [w3, w4] - min (be_val16 [w3, w4]) 4,
            Id = be_val32 (w5 # drop 3 (header_bytes le (Header (InboundPacket c))))\<rparr>"
proof -
  let ?hb = "header_bytes le (Header (InboundPacket c))"
  let ?h1 = "receive_into_header le (Header (InboundPacket c)) [w0, w1, w2]"
  let ?c1 = "c\<lparr>Socket := (Socket c)\<lparr>rx := [Bytes [w3, w4, w5]] @ evs\<rparr>,
               InboundPacket := (InboundPacket c)\<lparr>BytesTransferred := 3, Header := ?h1\<rparr>\<rparr>"
  have first: "ReadPacket le cmd now c = (MoreData, ?c1)"
    using assms
    by (simp add: ReadPacket_header_partial [where bs = "[w0, w1, w2]" and
          evs = "Bytes [w3, w4, w5] # evs"])
  have len: "length ([w3, w4, w5] @ drop 3 ?hb) = 6" by simp
  have h2: "receive_into_header le ?h1 [w3, w4, w5] =
              header_of_bytes le ([w3, w4, w5] @ drop 3 ?hb)"
    by (simp add: receive_into_header_def header_bytes_of_bytes numeral_3_eq_3)
  have size2: "NetworkToHost le (Size (receive_into_header le ?h1 [w3, w4, w5])) =
                 be_val16 [w3, w4]"
    unfolding h2 using header_of_bytes_wire(1) [of "[w3, w4, w5] @ drop 3 ?hb" le] len
    by simp
  have id2: "ByteSwapBE le (Id (receive_into_header le ?h1 [w3, w4, w5])) =
               be_val32 (w5 # drop 3 ?hb)"
    unfolding h2 using header_of_bytes_wire(2) [of "[w3, w4, w5] @ drop 3 ?hb" le] len
    by simp
  have "Header (InboundPacket (snd (ReadPacket le cmd now ?c1))) =
           \<lparr>Size = be_val16 [w3, w4] - min (be_val16 [w3, w4]) 4,
            Id = be_val32 (w5 # drop 3 ?hb)\<rparr>"
    by (simp add: ReadPacket_header_complete [where bs = "[w3, w4, w5]" and evs = evs]
        Let_def ReadPacket_body_Header size2 id2)
  then show ?thesis by (simp add: first)
qed

lemma whole_header_decodes:
  assumes "BytesTransferred (InboundPacket c) = 0"
    and "rx (Socket c) = Bytes [w0, w1, w2, w3, w4, w5] # evs"
  shows "Header (InboundPacket (snd (ReadPacket le cmd now c))) =
           \<lparr>Size = be_val16 [w0, w1] - min (be_val16 [w0, w1]) 4,
            Id = be_val32 [w2, w3, w4, w5]\<rparr>"
  using assms
  by (simp add: ReadPacket_header_complete [where bs = "[w0, w1, w2, w3, w4, w5]" and evs = evs]
      Let_def ReadPacket_body_Header receive_into_header_whole
      header_of_bytes_wire [of "[w0, w1, w2, w3, w4, w5]" le, simplified])

lemma ReadPacket_poll_last:
  "ReadPacket_poll (Suc 0) le cmd now c = ReadPacket le cmd now c"
  by (simp split: prod.splits NetworkReadPacket.splits)

lemma header_byte_by_byte:
  assumes "BytesTransferred (InboundPacket c) = 0"
    and "rx (Socket c) =
      Bytes [w0] # Bytes [w1] # Bytes [w2] # Bytes [w3] # Bytes [w4] # Bytes [w5] # evs"
  shows "Header (InboundPacket (snd (ReadPacket_poll 6 le cmd now c))) =
           \<lparr>Size = be_val16 (w5 # take 1 (drop 1 (header_bytes le (Header (InboundPacket c))))) -
                   min (be_val16 (w5 # take 1 (drop 1 (header_bytes le (Header (InboundPacket c)))))) 4,
            Id = be_val32 (drop 2 (header_bytes le (Header (InboundPacket c))))\<rparr>"
proof -
  let ?hb = "header_bytes le (Header (InboundPacket c))"
  define h0 where "h0 = Header (InboundPacket c)"
  define h1 where "h1 = receive_into_header le h0 [w0]"
  define h2 where "h2 = receive_into_header le h1 [w1]"
  define h3 where "h3 = receive_into_header le h2 [w2]"
  define h4 where "h4 = receive_into_header le h3 [w3]"
  define h5 where "h5 = receive_into_header le h4 [w4]"
  define c1 where "c1 = c\<lparr>Socket := (Socket c)\<lparr>rx := Bytes [w1] # Bytes [w2] # Bytes [w3] # Bytes [w4] # Bytes [w5] # evs\<rparr>,
      InboundPacket := (InboundPacket c)\<lparr>BytesTransferred := 1, Header := h1\<rparr>\<rparr>"
  define c2 where "c2 = c\<lparr>Socket := (Socket c)\<lparr>rx := Bytes [w2] # Bytes [w3] # Bytes [w4] # Bytes [w5] # evs\<rparr>,
      InboundPacket := (InboundPacket c)\<lparr>BytesTransferred := 2, Header := h2\<rparr>\<rparr>"
  define c3 where "c3 = c\<lparr>Socket := (Socket c)\<lparr>rx := Bytes [w3] # Bytes [w4] # Bytes [w5] # evs\<rparr>,
      InboundPacket := (InboundPacket c)\<lparr>BytesTransferred := 3, Header := h3\<rparr>\<rparr>"
  define c4 where "c4 = c\<lparr>Socket := (Socket c)\<lparr>rx := Bytes [w4] # Bytes [w5] # evs\<rparr>,
      InboundPacket := (InboundPacket c)\<lparr>BytesTransferred := 4, Header := h4\<rparr>\<rparr>"
  define c5 where "c5 = c\<lparr>Socket := (Socket c)\<lparr>rx := Bytes [w5] # evs\<rparr>,
      InboundPacket := (InboundPacket c)\<lparr>BytesTransferred := 5, Header := h5\<rparr>\<rparr>"
  have s1: "ReadPacket le cmd now c = (MoreData, c1)"
    using assms
    by (simp add: ReadPacket_header_partial [where bs = "[w0]" and evs = "Bytes [w1] # Bytes [w2] # Bytes [w3] # Bytes [w4] # Bytes [w5] # evs"]
        c1_def h1_def h0_def)
  have s2: "ReadPacket le cmd now c1 = (MoreData, c2)"
    by (simp add: ReadPacket_header_partial [where bs = "[w1]" and evs = "Bytes [w2] # Bytes [w3] # Bytes [w4] # Bytes [w5] # evs"]
        c1_def c2_def h2_def)
  have s3: "ReadPacket le cmd now c2 = (MoreData, c3)"
    by (simp add: ReadPacket_header_partial [where bs = "[w2]" and evs = "Bytes [w3] # Bytes [w4] # Bytes [w5] # evs"]
        c2_def c3_def h3_def)
  have s4: "ReadPacket le cmd now c3 = (MoreData, c4)"
    by (simp add: ReadPacket_header_partial [where bs = "[w3]" and evs = "Bytes [w4] # Bytes [w5] # evs"]
        c3_def c4_def h4_def)
  have s5: "ReadPacket le cmd now c4 = (MoreData, c5)"
    by (simp add: ReadPacket_header_partial [where bs = "[w4]" and evs = "Bytes [w5] # evs"]
        c4_def c5_def h5_def)
  have hb: "header_bytes le h5 = w4 # drop 1 ?hb"
    by (simp add: h5_def h4_def h3_def h2_def h1_def h0_def header_bytes_receive_into_header)
  have len: "length (w5 # drop 1 ?hb) = 6" by simp
  have h6: "receive_into_header le h5 [w5] = header_of_bytes le (w5 # drop 1 ?hb)"
    by (simp add: receive_into_header_def hb)
  have size6: "NetworkToHost le (Size (receive_into_header le h5 [w5])) =
                 be_val16 (w5 # take 1 (drop 1 ?hb))"
    unfolding h6 using header_of_bytes_wire(1) [of "w5 # drop 1 ?hb" le] len
    by (simp add: numeral_2_eq_2)
  have id6: "ByteSwapBE le (Id (receive_into_header le h5 [w5])) = be_val32 (drop 2 ?hb)"
    unfolding h6 using header_of_bytes_wire(2) [of "w5 # drop 1 ?hb" le] len
    by (simp add: numeral_2_eq_2 drop_Suc_Cons)
  have last: "Header (InboundPacket (snd (ReadPacket le cmd now c5))) =
           \<lparr>Size = be_val16 (w5 # take 1 (drop 1 ?hb)) -
                   min (be_val16 (w5 # take 1 (drop 1 ?hb))) 4,
            Id = be_val32 (drop 2 ?hb)\<rparr>"
    by (simp add: ReadPacket_header_complete [where bs = "[w5]" and evs = evs]
        c5_def Let_def ReadPacket_body_Header size6 id6)
  have n6: "(6 :: nat) = Suc (Suc (Suc (Suc (Suc (Suc 0)))))" by simp
  have "ReadPacket_poll 6 le cmd now c = ReadPacket le cmd now c5"
    unfolding n6
    by (simp only: ReadPacket_poll_MoreData [OF s1] ReadPacket_poll_MoreData [OF s2]
        ReadPacket_poll_MoreData [OF s3] ReadPacket_poll_MoreData [OF s4]
        ReadPacket_poll_MoreData [OF s5] ReadPacket_poll_last)
  then show ?thesis by (simp add: last)
qed

subsection \<open>The round trip when the header arrives whole\<close>

text \<open>One call of \<open>ReadPacket\<close> in the body phase that receives a chunk of the body.\<close>

lemma unat_Size_bound: "unat (s :: u16) < 65536"
  using unsigned_less [of s, where ?'a = nat] by simp

lemma ReadPacket_body_chunk:
  assumes "rx (Socket c) = Bytes x # evs"
    and "BytesTransferred (InboundPacket c) = 6 + length (Data (InboundPacket c))"
    and "length (Data (InboundPacket c)) < unat (Size (Header (InboundPacket c)))"
    and "length (Data (InboundPacket c)) + length x \<le> unat (Size (Header (InboundPacket c)))"
  shows "ReadPacket_body cmd now c =
     (let c1 = c\<lparr>Socket := (Socket c)\<lparr>rx := evs\<rparr>,
                  InboundPacket := (InboundPacket c)
                    \<lparr>BytesTransferred := 6 + length (Data (InboundPacket c)) + length x,
                     Data := Data (InboundPacket c) @ x\<rparr>\<rparr>
      in if length (Data (InboundPacket c)) + length x = unat (Size (Header (InboundPacket c)))
         then (Success,
               RecordPacketStats cmd (c1\<lparr>lastPacketTime := now\<rparr>) (InboundPacket c1) False)
         else (MoreData, c1))"
proof -
  let ?missing = "unat (Size (Header (InboundPacket c))) - length (Data (InboundPacket c))"
  have m: "size_t_sub (unat (Size (Header (InboundPacket c))))
             (size_t_sub (6 + length (Data (InboundPacket c))) sizeof_header) = ?missing"
    using assms(3) by (simp add: size_t_sub_def sizeof_header_def)
  have small: "min ?missing NetworkBufferSize = ?missing"
    using unat_Size_bound [of "Size (Header (InboundPacket c))"]
    by (simp add: NetworkBufferSize_def)
  have recv: "ReceiveData (Socket c) ?missing = (Success, x, (Socket c)\<lparr>rx := evs\<rparr>)"
    using assms(1,4) by (simp add: ReceiveData_def)
  show ?thesis
    using assms(3)
    by (simp add: ReadPacket_body_def m small recv Let_def Write_def assms(2))
qed

lemma ReadPacket_body_nothing_missing:
  assumes "BytesTransferred (InboundPacket c) = 6 + length (Data (InboundPacket c))"
    and "length (Data (InboundPacket c)) = unat (Size (Header (InboundPacket c)))"
  shows "ReadPacket_body cmd now c =
     (Success, RecordPacketStats cmd (c\<lparr>lastPacketTime := now\<rparr>) (InboundPacket c) False)"
  using assms by (simp add: ReadPacket_body_def size_t_sub_def sizeof_header_def Let_def)

lemma ReadPacket_in_body:
  "6 \<le> BytesTransferred (InboundPacket c) \<Longrightarrow>
   ReadPacket le cmd now c = ReadPacket_body cmd now c"
  by (simp add: ReadPacket_def Let_def sizeof_header_def)

text \<open>
  With the header in place, polling completes the packet whatever the chunks of the body
  are, given one call per chunk and one more.
\<close>

lemma ReadPacket_poll_body:
  assumes "rx (Socket c) = map Bytes chunks"
    and "BytesTransferred (InboundPacket c) = 6 + length (Data (InboundPacket c))"
    and "Data (InboundPacket c) @ concat chunks = body"
    and "unat (Size (Header (InboundPacket c))) = length body"
    and "length chunks < fuel"
  shows "fst (ReadPacket_poll fuel le cmd now c) = Success \<and>
         Data (InboundPacket (snd (ReadPacket_poll fuel le cmd now c))) = body \<and>
         Header (InboundPacket (snd (ReadPacket_poll fuel le cmd now c))) =
           Header (InboundPacket c)"
  using assms
proof (induction chunks arbitrary: c fuel)
  case Nil
  then obtain f where fuel: "fuel = Suc f" by (cases fuel) auto
  from Nil.prems have full: "length (Data (InboundPacket c)) = unat (Size (Header (InboundPacket c)))"
    by simp
  have "ReadPacket le cmd now c =
     (Success, RecordPacketStats cmd (c\<lparr>lastPacketTime := now\<rparr>) (InboundPacket c) False)"
    using Nil.prems(2) full by (simp add: ReadPacket_in_body ReadPacket_body_nothing_missing)
  then show ?case
    using Nil.prems(3) by (simp add: fuel RecordPacketStats_Inbound)
next
  case (Cons x rest)
  then obtain f where fuel: "fuel = Suc f" and f: "length rest < f" by (cases fuel) auto
  let ?d = "Data (InboundPacket c)"
  show ?case
  proof (cases "length ?d = length body")
    case True
    with Cons.prems(3) have "?d = body" by (metis append_eq_append_conv append_Nil2 length_0_conv length_append add_cancel_right_right)
    moreover have "ReadPacket le cmd now c =
       (Success, RecordPacketStats cmd (c\<lparr>lastPacketTime := now\<rparr>) (InboundPacket c) False)"
      using Cons.prems(2,4) True
      by (simp add: ReadPacket_in_body ReadPacket_body_nothing_missing)
    ultimately show ?thesis
      by (simp add: fuel RecordPacketStats_Inbound)
  next
    case False
    from Cons.prems(3) have total: "length ?d + length x + length (concat rest) = length body"
      by (metis append.assoc concat.simps(2) length_append)
    with False have less: "length ?d < unat (Size (Header (InboundPacket c)))"
      and fits: "length ?d + length x \<le> unat (Size (Header (InboundPacket c)))"
      using Cons.prems(4) by simp_all
    have rx: "rx (Socket c) = Bytes x # map Bytes rest"
      using Cons.prems(1) by simp
    let ?c1 = "c\<lparr>Socket := (Socket c)\<lparr>rx := map Bytes rest\<rparr>,
                  InboundPacket := (InboundPacket c)
                    \<lparr>BytesTransferred := 6 + length ?d + length x, Data := ?d @ x\<rparr>\<rparr>"
    show ?thesis
    proof (cases "length ?d + length x = length body")
      case True
      then have "concat rest = []" using total by simp
      with Cons.prems(3) have body: "?d @ x = body" by simp
      have "ReadPacket le cmd now c =
         (Success, RecordPacketStats cmd (?c1\<lparr>lastPacketTime := now\<rparr>) (InboundPacket ?c1) False)"
        using True Cons.prems(2,4)
        by (simp add: ReadPacket_in_body ReadPacket_body_chunk [OF rx Cons.prems(2) less fits]
            Let_def)
      then show ?thesis
        using body by (simp add: fuel RecordPacketStats_Inbound)
    next
      case False
      have step: "ReadPacket le cmd now c = (MoreData, ?c1)"
        using False Cons.prems(2,4)
        by (simp add: ReadPacket_in_body ReadPacket_body_chunk [OF rx Cons.prems(2) less fits]
            Let_def)
      have "fst (ReadPacket_poll f le cmd now ?c1) = Success \<and>
         Data (InboundPacket (snd (ReadPacket_poll f le cmd now ?c1))) = body \<and>
         Header (InboundPacket (snd (ReadPacket_poll f le cmd now ?c1))) =
           Header (InboundPacket ?c1)"
        using Cons.prems(3,4) f by (intro Cons.IH) simp_all
      then show ?thesis
        by (simp add: fuel step)
    qed
  qed
qed

text \<open>
  The round trip of the claim holds when the first receive delivers the six header bytes
  (and maybe more): for every command and every body of up to 65531 bytes, whatever the
  chunks of the rest, polling completes a packet with the command and the body that were
  queued.
\<close>

lemma framing_round_trip_whole_header:
  assumes "AuthStatus c = Ok \<or> \<not> CommandRequiresAuth cmd p"
    and "length (Data p) \<le> 65531"
    and "BytesTransferred (InboundPacket r) = 0"
    and "Data (InboundPacket r) = []"
    and "rx (Socket r) = map Bytes (first # chunks)"
    and "6 \<le> length first"
    and "first @ concat chunks = SendPacket_buffer le (queued_packet cmd c p)"
    and "length chunks + 1 < fuel"
  shows "fst (ReadPacket_poll fuel le' cmd' now r) = Success \<and>
         Data (InboundPacket (snd (ReadPacket_poll fuel le' cmd' now r))) = Data p \<and>
         GetCommand (InboundPacket (snd (ReadPacket_poll fuel le' cmd' now r))) = GetCommand p"
proof -
  let ?n = "length (Data p)"
  let ?buf = "SendPacket_buffer le (queued_packet cmd c p)"
  have buf: "?buf = be_bytes16 (of_nat ?n + 4) @ be_bytes32 (Id (Header p)) @ Data p"
    using assms(1) by (simp add: queued_packet_stamped SendPacket_buffer_wire stamp_size_def)
  have "take 6 first = take 6 (first @ concat chunks)"
    using assms(6) by simp
  then have first6: "take 6 first = be_bytes16 (of_nat ?n + 4) @ be_bytes32 (Id (Header p))"
    unfolding assms(7) buf by simp
  have first2: "take 2 first = be_bytes16 (of_nat ?n + 4)"
  proof -
    have "take 2 first = take 2 (take 6 first)" by simp
    then show ?thesis unfolding first6 by simp
  qed
  have first4: "take 4 (drop 2 first) = be_bytes32 (Id (Header p))"
  proof -
    have "take 4 (drop 2 first) = drop 2 (take 6 first)" by (simp add: drop_take)
    then show ?thesis unfolding first6 by simp
  qed
  have rest: "drop 6 first @ concat chunks = Data p"
  proof -
    have "drop 6 first @ concat chunks = drop 6 (first @ concat chunks)"
      using assms(6) by simp
    then show ?thesis unfolding assms(7) buf by simp
  qed
  let ?chunks = "if length first \<le> 6 then chunks else drop 6 first # chunks"
  let ?r1 = "r\<lparr>Socket := (Socket r)\<lparr>rx := map Bytes ?chunks\<rparr>,
               InboundPacket := (InboundPacket r)
                 \<lparr>BytesTransferred := 6,
                  Header := \<lparr>Size = of_nat ?n, Id = Id (Header p)\<rparr>\<rparr>\<rparr>"
  have size1: "NetworkToHost le' (Size (receive_into_header le' (Header (InboundPacket r))
                 (take 6 first))) = of_nat ?n + 4"
    using assms(6)
    by (simp add: receive_into_header_whole header_of_bytes_wire first2 be_val16_bytes)
  have id1: "ByteSwapBE le' (Id (receive_into_header le' (Header (InboundPacket r))
                 (take 6 first))) = Id (Header p)"
    using assms(6)
    by (simp add: receive_into_header_whole header_of_bytes_wire first4 be_val32_bytes
        drop_take)
  have hdr: "ReadPacket le' cmd' now r = ReadPacket_body cmd' now ?r1"
    using assms(3,5,6)
    by (simp add: ReadPacket_header_complete [where bs = first and evs = "map Bytes chunks"]
        Let_def size1 id1 size_adjustment_cancels [OF assms(2)])
  have "ReadPacket le' cmd' now ?r1 = ReadPacket_body cmd' now ?r1"
    by (simp add: ReadPacket_in_body)
  with hdr have same: "ReadPacket le' cmd' now r = ReadPacket le' cmd' now ?r1" by simp
  obtain f where fuel: "fuel = Suc f" using assms(8) by (cases fuel) auto
  have poll: "ReadPacket_poll fuel le' cmd' now r = ReadPacket_poll fuel le' cmd' now ?r1"
    unfolding fuel by (simp add: same)
  have "fst (ReadPacket_poll fuel le' cmd' now ?r1) = Success \<and>
        Data (InboundPacket (snd (ReadPacket_poll fuel le' cmd' now ?r1))) = Data p \<and>
        Header (InboundPacket (snd (ReadPacket_poll fuel le' cmd' now ?r1))) =
          Header (InboundPacket ?r1)"
  proof (rule ReadPacket_poll_body)
    show "rx (Socket ?r1) = map Bytes ?chunks" by simp
    show "BytesTransferred (InboundPacket ?r1) = 6 + length (Data (InboundPacket ?r1))"
      using assms(4) by simp
    show "Data (InboundPacket ?r1) @ concat ?chunks = Data p"
      using assms(4) rest by (cases "length first \<le> 6") simp_all
    show "unat (Size (Header (InboundPacket ?r1))) = length (Data p)"
      using assms(2) by (simp add: unat_of_nat_u16)
    show "length ?chunks < fuel"
      using assms(8) by simp
  qed
  then show ?thesis
    unfolding poll by (simp add: GetCommand_def)
qed

end
